theory Spec2Isabelle
  imports Main
begin

section \<open>Python strings\<close>

text \<open>
  Python strings are modelled as \<open>string\<close>: sequences of code points below 256.
  \<open>str.lower\<close>, \<open>str.strip\<close>, \<open>str.split\<close> with a one-character separator,
  \<open>str.startswith\<close>, the \<open>in\<close> test on strings and \<open>str.replace(c, "")\<close> are
  written out for that range.
\<close>

definition lower_char :: "char \<Rightarrow> char" where
  "lower_char c =
     (let n = (of_char c :: nat)
      in if (65 \<le> n \<and> n \<le> 90) \<or> (192 \<le> n \<and> n \<le> 214) \<or> (216 \<le> n \<and> n \<le> 222)
         then char_of (n + 32) else c)"

definition lower :: "string \<Rightarrow> string" where
  "lower s = map lower_char s"

definition is_space :: "char \<Rightarrow> bool" where
  "is_space c =
     (let n = (of_char c :: nat)
      in (9 \<le> n \<and> n \<le> 13) \<or> (28 \<le> n \<and> n \<le> 32) \<or> n = 133 \<or> n = 160)"

definition strip :: "string \<Rightarrow> string" where
  "strip s = rev (dropWhile is_space (rev (dropWhile is_space s)))"

definition startswith :: "string \<Rightarrow> string \<Rightarrow> bool" where
  "startswith s p = (take (length p) s = p)"

fun contains :: "string \<Rightarrow> string \<Rightarrow> bool" where
  "contains [] sub = (sub = [])"
| "contains (c # cs) sub = (startswith (c # cs) sub \<or> contains cs sub)"

definition remove_char :: "char \<Rightarrow> string \<Rightarrow> string" where
  "remove_char c s = filter (\<lambda>x. x \<noteq> c) s"

fun split :: "char \<Rightarrow> string \<Rightarrow> string list" where
  "split sep [] = [[]]"
| "split sep (c # cs) =
     (if c = sep then [] # split sep cs
      else (c # hd (split sep cs)) # tl (split sep cs))"

text \<open>\<open>posixpath.join\<close> with two arguments.\<close>

definition os_path_join :: "string \<Rightarrow> string \<Rightarrow> string" where
  "os_path_join a b =
     (if startswith b ''/'' then b
      else if a = [] \<or> last a = CHR ''/'' then a @ b
      else a @ ''/'' @ b)"

section \<open>Exceptions, data frames and the environment\<close>

text \<open>
  Every raise site of the training script is a constructor; the arguments are the values
  its message is formatted from. \<open>PandasError\<close> stands for any exception raised inside
  \<open>pd.read_csv\<close>, \<open>OSError\<close> for a failing file-system call.
\<close>

datatype exn =
    NoCsvFound string
  | AllCsvEmpty string "string list"
  | DataFileNotFound string
  | DataFileEmpty string
  | EmptyDataError string
  | ModalNoRows
  | ParseFailed string "exn option"
  | ColumnNotDetected "string list"
  | NoNumericValues string
  | UnboundLocalError string
  | MaxEmptySequence
  | TypeError
  | MissingLabel string
  | OSError string
  | PandasError string

text \<open>The Python exception class raised at each site.\<close>

fun exn_class :: "exn \<Rightarrow> string" where
  "exn_class (NoCsvFound _) = ''FileNotFoundError''"
| "exn_class (AllCsvEmpty _ _) = ''ValueError''"
| "exn_class (DataFileNotFound _) = ''FileNotFoundError''"
| "exn_class (DataFileEmpty _) = ''ValueError''"
| "exn_class (EmptyDataError _) = ''EmptyDataError''"
| "exn_class ModalNoRows = ''RuntimeError''"
| "exn_class (ParseFailed _ _) = ''RuntimeError''"
| "exn_class (ColumnNotDetected _) = ''KeyError''"
| "exn_class (NoNumericValues _) = ''ValueError''"
| "exn_class (UnboundLocalError _) = ''UnboundLocalError''"
| "exn_class MaxEmptySequence = ''ValueError''"
| "exn_class TypeError = ''TypeError''"
| "exn_class (MissingLabel _) = ''KeyError''"
| "exn_class (OSError _) = ''OSError''"
| "exn_class (PandasError _) = ''Exception''"

datatype kwarg =
    Encoding string
  | Engine string
  | SepNone
  | Sep char
  | OnBadLines string
  | Quotechar char
  | QuotingNone

datatype source = Path string | StringIO string

text \<open>
  A data frame is the list of its columns in order, each with its label, whether its
  dtype is numeric, and its cells.
\<close>

datatype 'c column = Column (numeric_dtype: bool) (cells: "'c list")

type_synonym 'c dataframe = "(string \<times> 'c column) list"

text \<open>
  What the script reads from outside itself: the directory of the module, the file
  system (\<open>file_size p = None\<close> when \<open>p\<close> does not exist), \<open>glob\<close>, the lines that
  iterating a file opened in text mode yields, \<open>pd.read_csv\<close>, and the coercion of one
  cell by \<open>pd.to_numeric(errors="coerce")\<close> (\<open>None\<close> for NaN).
\<close>

record ('c, 'n) env =
  BASE_DIR :: string
  file_size :: "string \<Rightarrow> nat option"
  glob :: "string \<Rightarrow> string list"
  open_text :: "string \<Rightarrow> exn + string list"
  read_csv :: "source \<Rightarrow> kwarg list \<Rightarrow> exn + 'c dataframe"
  to_numeric :: "'c \<Rightarrow> 'n option"

datatype event =
    ReadCsv source "kwarg list"
  | PrintSuccess string nat nat
  | PrintSkipSucceeded
  | PrintQuoteNoneSucceeded
  | PrintModalAttempt
  | PrintModalKept nat nat char nat
  | PrintUsing string nat
  | PrintWarnSingleNumeric string
  | PrintLoaded nat string

section \<open>find_best_csv\<close>

definition PREFERRED_FILENAME :: string where
  "PREFERRED_FILENAME = ''live_air_quality.csv''"

definition DATA_FILE :: "('c, 'n) env \<Rightarrow> string" where
  "DATA_FILE env = os_path_join (BASE_DIR env) ''air_quality_data.csv''"

definition os_path_exists :: "('c, 'n) env \<Rightarrow> string \<Rightarrow> bool" where
  "os_path_exists env p = (file_size env p \<noteq> None)"

definition os_path_getsize :: "('c, 'n) env \<Rightarrow> string \<Rightarrow> exn + nat" where
  "os_path_getsize env p = (case file_size env p of None \<Rightarrow> Inl (OSError p) | Some n \<Rightarrow> Inr n)"

text \<open>\<open>os.path.exists(p) and os.path.getsize(p) > 0\<close>\<close>

definition exists_nonempty :: "('c, 'n) env \<Rightarrow> string \<Rightarrow> bool" where
  "exists_nonempty env p =
     (os_path_exists env p \<and> (case os_path_getsize env p of Inl _ \<Rightarrow> False | Inr n \<Rightarrow> n > 0))"

text \<open>\<open>[(p, os.path.getsize(p)) for p in csvs if os.path.getsize(p) > 0]\<close>\<close>

fun non_empty_of :: "('c, 'n) env \<Rightarrow> string list \<Rightarrow> exn + (string \<times> nat) list" where
  "non_empty_of env [] = Inr []"
| "non_empty_of env (p # ps) =
     (case os_path_getsize env p of
        Inl e \<Rightarrow> Inl e
      | Inr n \<Rightarrow>
          (case non_empty_of env ps of
             Inl e \<Rightarrow> Inl e
           | Inr rest \<Rightarrow> Inr (if n > 0 then (p, n) # rest else rest)))"

text \<open>\<open>xs.sort(key=lambda t: t[1], reverse=True)\<close>: stable, largest first.\<close>

definition sort_by_size_desc :: "(string \<times> nat) list \<Rightarrow> (string \<times> nat) list" where
  "sort_by_size_desc xs = sort_key (\<lambda>t. - int (snd t)) xs"

definition find_best_csv :: "('c, 'n) env \<Rightarrow> string \<Rightarrow> string \<Rightarrow> exn + string" where
  "find_best_csv env base_dir preferred =
     (let pref_path = os_path_join base_dir preferred in
      if exists_nonempty env pref_path then Inr pref_path
      else if exists_nonempty env (DATA_FILE env) then Inr (DATA_FILE env)
      else
        let csvs = glob env (os_path_join base_dir ''*.csv'') in
        if csvs = [] then Inl (NoCsvFound base_dir)
        else
          (case non_empty_of env csvs of
             Inl e \<Rightarrow> Inl e
           | Inr non_empty \<Rightarrow>
               if non_empty = [] then Inl (AllCsvEmpty base_dir csvs)
               else Inr (fst (hd (sort_by_size_desc non_empty)))))"

section \<open>_try_read\<close>

text \<open>
  How a block of \<open>_try_read\<close> ends: it returned a data frame, it let an exception
  escape, or control went on to the next block with the current \<open>last_exc\<close>.
\<close>

datatype 'a outcome = Returned 'a | Raised exn | Continue "exn option"

fun and_then ::
  "event list \<times> 'a outcome \<Rightarrow> (exn option \<Rightarrow> event list \<times> 'a outcome) \<Rightarrow> event list \<times> 'a outcome" where
  "and_then (log, Continue last_exc) f = (case f last_exc of (log', r) \<Rightarrow> (log @ log', r))"
| "and_then (log, Returned df) f = (log, Returned df)"
| "and_then (log, Raised e) f = (log, Raised e)"

definition shape1 :: "'c dataframe \<Rightarrow> nat" where
  "shape1 df = length df"

definition nrows :: "'c dataframe \<Rightarrow> nat" where
  "nrows df = (case df of [] \<Rightarrow> 0 | c # _ \<Rightarrow> length (cells (snd c)))"

definition attempts :: "(kwarg list \<times> string) list" where
  "attempts =
     [([Encoding ''utf-8''], ''utf-8 (default engine)''),
      ([Encoding ''utf-8-sig''], ''utf-8-sig (BOM)''),
      ([Encoding ''latin1''], ''latin1''),
      ([Engine ''python'', SepNone], ''python engine, auto-sep'')]"

text \<open>The \<open>for att in attempts\<close> loop (lines 47 to 55).\<close>

fun attempt_loop ::
  "('c, 'n) env \<Rightarrow> string \<Rightarrow> (kwarg list \<times> string) list \<Rightarrow> exn option
     \<Rightarrow> event list \<times> 'c dataframe outcome" where
  "attempt_loop env path [] last_exc = ([], Continue last_exc)"
| "attempt_loop env path (att # rest) last_exc =
     (case read_csv env (Path path) (fst att) of
        Inl e \<Rightarrow>
          and_then ([ReadCsv (Path path) (fst att)], Continue (Some e))
            (attempt_loop env path rest)
      | Inr df \<Rightarrow>
          if shape1 df = 0 then
            and_then ([ReadCsv (Path path) (fst att)], Continue (Some (EmptyDataError (snd att))))
              (attempt_loop env path rest)
          else
            ([ReadCsv (Path path) (fst att), PrintSuccess (snd att) (length df) (nrows df)],
             Returned df))"

text \<open>
  The two blocks of lines 58 to 64 and 67 to 73 have one shape: a data frame with a
  column is returned, an exception becomes \<open>last_exc\<close>, and a data frame without
  columns leaves \<open>last_exc\<close> as it was.
\<close>

definition lenient_attempt ::
  "('c, 'n) env \<Rightarrow> string \<Rightarrow> kwarg list \<Rightarrow> event \<Rightarrow> exn option
     \<Rightarrow> event list \<times> 'c dataframe outcome" where
  "lenient_attempt env path kw msg last_exc =
     (case read_csv env (Path path) kw of
        Inl e \<Rightarrow> ([ReadCsv (Path path) kw], Continue (Some e))
      | Inr df \<Rightarrow>
          if shape1 df > 0 then ([ReadCsv (Path path) kw, msg], Returned df)
          else ([ReadCsv (Path path) kw], Continue last_exc))"

definition skip_kwargs :: "kwarg list" where
  "skip_kwargs = [Engine ''python'', SepNone, OnBadLines ''skip'', Encoding ''utf-8'']"

definition quote_none_kwargs :: "kwarg list" where
  "quote_none_kwargs =
     [Engine ''python'', SepNone, Quotechar (CHR 0x22), QuotingNone, Encoding ''latin1'',
      OnBadLines ''skip'']"

text \<open>
  A local variable is unbound until its first assignment. \<open>sample_lines\<close> is assigned
  only when the list comprehension of line 80 completes, or to \<open>None\<close> in the handler of
  line 85; the handler of line 81 assigns nothing.
\<close>

datatype 'a local_var = Unbound | Bound 'a

definition read_sample :: "('c, 'n) env \<Rightarrow> string \<Rightarrow> string list option local_var" where
  "read_sample env path =
     (case open_text env path of
        Inl e \<Rightarrow> Bound None
      | Inr lines \<Rightarrow> if length lines < 2000 then Unbound else Bound (Some (take 2000 lines)))"

text \<open>The dictionary \<open>counts\<close>, in insertion order.\<close>

fun setdefault :: "(nat \<times> nat) list \<Rightarrow> nat \<Rightarrow> nat \<Rightarrow> (nat \<times> nat) list" where
  "setdefault [] k v = [(k, v)]"
| "setdefault (kv # kvs) k v = (if fst kv = k then kv # kvs else kv # setdefault kvs k v)"

fun increment :: "(nat \<times> nat) list \<Rightarrow> nat \<Rightarrow> (nat \<times> nat) list" where
  "increment [] k = []"
| "increment (kv # kvs) k = (if fst kv = k then (fst kv, snd kv + 1) # kvs else kv # increment kvs k)"

text \<open>\<open>max(items, key=lambda kv: kv[1])\<close>: the first item with the largest value.\<close>

fun max_by_value :: "nat \<times> nat \<Rightarrow> (nat \<times> nat) list \<Rightarrow> nat \<times> nat" where
  "max_by_value best [] = best"
| "max_by_value best (kv # kvs) = max_by_value (if snd kv > snd best then kv else best) kvs"

definition count_lines :: "string list \<Rightarrow> char \<Rightarrow> (nat \<times> nat) list" where
  "count_lines lines sep =
     foldl (\<lambda>counts ln. increment (setdefault counts (length (split sep ln)) 0) (length (split sep ln)))
       [] lines"

definition modal_count :: "string list \<Rightarrow> char \<Rightarrow> exn + nat \<times> nat" where
  "modal_count lines sep =
     (case count_lines lines sep of
        [] \<Rightarrow> Inl MaxEmptySequence
      | kv # kvs \<Rightarrow> Inr (max_by_value kv kvs))"

text \<open>The streaming loop of lines 110 to 115 on \<open>(cleaned_rows, kept, total)\<close>; \<open>total\<close> is written \<open>total_lines\<close>.\<close>

fun stream_rows ::
  "char \<Rightarrow> nat \<Rightarrow> string list \<Rightarrow> string list \<times> nat \<times> nat \<Rightarrow> string list \<times> nat \<times> nat" where
  "stream_rows chosen_sep modal_cols [] st = st"
| "stream_rows chosen_sep modal_cols (line # rest) (cleaned_rows, kept, total_lines) =
     (if length (split chosen_sep line) = modal_cols
      then stream_rows chosen_sep modal_cols rest (cleaned_rows @ [line], kept + 1, total_lines + 1)
      else stream_rows chosen_sep modal_cols rest (cleaned_rows, kept, total_lines + 1))"

definition choose_sep :: "nat \<times> nat \<Rightarrow> nat \<times> nat \<Rightarrow> char" where
  "choose_sep comma_mode semi_mode =
     (if snd comma_mode \<ge> snd semi_mode then CHR '','' else CHR '';'')"

text \<open>The body of \<open>if sample_lines:\<close> (lines 88 to 129).\<close>

definition modal_clean ::
  "('c, 'n) env \<Rightarrow> string \<Rightarrow> string list \<Rightarrow> exn option \<Rightarrow> event list \<times> 'c dataframe outcome" where
  "modal_clean env path sample_lines last_exc =
     (case modal_count sample_lines (CHR '','') of
        Inl e \<Rightarrow> ([], Raised e)
      | Inr comma_mode \<Rightarrow>
     (case modal_count sample_lines (CHR '';'') of
        Inl e \<Rightarrow> ([], Raised e)
      | Inr semi_mode \<Rightarrow>
     (let chosen_sep = choose_sep comma_mode semi_mode;
          modal_cols = (if chosen_sep = CHR '','' then fst comma_mode else fst semi_mode)
      in case open_text env path of
           Inl e \<Rightarrow> ([], Raised e)
         | Inr lines \<Rightarrow>
     (case stream_rows chosen_sep modal_cols lines ([], 0, 0) of
        (cleaned_rows, kept, total_lines) \<Rightarrow>
          if kept = 0 then ([], Continue (Some ModalNoRows))
          else
            (case read_csv env (StringIO (concat cleaned_rows)) [Sep chosen_sep] of
               Inl e \<Rightarrow> ([ReadCsv (StringIO (concat cleaned_rows)) [Sep chosen_sep]], Continue (Some e))
             | Inr df \<Rightarrow>
                 if shape1 df = 0 then
                   ([ReadCsv (StringIO (concat cleaned_rows)) [Sep chosen_sep],
                     PrintModalKept kept total_lines chosen_sep modal_cols],
                    Continue (Some (EmptyDataError ''Modal-cleaner produced 0 columns.'')))
                 else
                   ([ReadCsv (StringIO (concat cleaned_rows)) [Sep chosen_sep],
                     PrintModalKept kept total_lines chosen_sep modal_cols],
                    Returned df))))))"

text \<open>Lines 75 to 131: the last resort and the final \<open>raise\<close>.\<close>

definition last_resort ::
  "('c, 'n) env \<Rightarrow> string \<Rightarrow> exn option \<Rightarrow> event list \<times> 'c dataframe outcome" where
  "last_resort env path last_exc =
     (case read_sample env path of
        Unbound \<Rightarrow> ([PrintModalAttempt], Raised (UnboundLocalError ''sample_lines''))
      | Bound None \<Rightarrow> ([PrintModalAttempt], Raised (ParseFailed path last_exc))
      | Bound (Some sample_lines) \<Rightarrow>
          if sample_lines = [] then ([PrintModalAttempt], Raised (ParseFailed path last_exc))
          else
            and_then
              (and_then ([PrintModalAttempt], Continue last_exc) (modal_clean env path sample_lines))
              (\<lambda>last_exc'. ([], Raised (ParseFailed path last_exc'))))"

definition try_read :: "('c, 'n) env \<Rightarrow> string \<Rightarrow> event list \<times> (exn + 'c dataframe)" where
  "try_read env path =
     (case
        and_then
          (and_then
             (and_then (attempt_loop env path attempts None)
                (lenient_attempt env path skip_kwargs PrintSkipSucceeded))
             (lenient_attempt env path quote_none_kwargs PrintQuoteNoneSucceeded))
          (last_resort env path)
      of
        (log, Returned df) \<Rightarrow> (log, Inr df)
      | (log, Raised e) \<Rightarrow> (log, Inl e)
      | (log, Continue last_exc) \<Rightarrow> (log, Inl (ParseFailed path last_exc)))"

section \<open>load_data\<close>

definition strip_columns :: "'c dataframe \<Rightarrow> 'c dataframe" where
  "strip_columns df = map (\<lambda>c. (strip (fst c), snd c)) df"

definition candidates :: "string list" where
  "candidates =
     [''pm25'', ''pm_25'', ''pm2_5'', ''pm2.5'', ''pm2_5(ug/m3)'', ''pm2.5(ug/m3)'',
      ''pm2_5_ug_m3'', ''pm25_ugm3'', ''pm2_5_ugm3'', ''pm_2_5'', ''pm25 (ug/m3)'',
      ''pm2.5_ugm3'', ''pm2_5_ug/m3'']"

text \<open>\<open>{col.lower(): col for col in df.columns}\<close>: a later column replaces an earlier one.\<close>

definition col_map_of :: "string list \<Rightarrow> string \<rightharpoonup> string" where
  "col_map_of columns = foldl (\<lambda>m col. m(lower col \<mapsto> col)) Map.empty columns"

fun match_candidates :: "(string \<rightharpoonup> string) \<Rightarrow> string list \<Rightarrow> string option" where
  "match_candidates col_map [] = None"
| "match_candidates col_map (cand # rest) =
     (case col_map (lower cand) of
        Some col \<Rightarrow> Some col
      | None \<Rightarrow> match_candidates col_map rest)"

definition looks_like_pm25 :: "string \<Rightarrow> bool" where
  "looks_like_pm25 col =
     (let lc = lower col
      in contains lc ''pm2'' \<or> contains lc ''pm 2'' \<or> contains lc ''pm2.5''
         \<or> startswith (remove_char (CHR ''_'') (remove_char (CHR ''.'') lc)) ''pm25'')"

fun match_substring :: "string list \<Rightarrow> string option" where
  "match_substring [] = None"
| "match_substring (col # rest) = (if looks_like_pm25 col then Some col else match_substring rest)"

text \<open>
  \<open>df[c]\<close> is a Series when one column carries the label and a DataFrame when several
  do; \<open>is_numeric_dtype\<close> of a DataFrame is False and \<open>pd.to_numeric\<close> of one raises
  TypeError.
\<close>

datatype 'c selection = Series "'c column" | Frame "'c column list"

definition getitem :: "'c dataframe \<Rightarrow> string \<Rightarrow> exn + 'c selection" where
  "getitem df c =
     (case filter (\<lambda>x. fst x = c) df of
        [] \<Rightarrow> Inl (MissingLabel c)
      | [x] \<Rightarrow> Inr (Series (snd x))
      | x # y # zs \<Rightarrow> Inr (Frame (map snd (x # y # zs))))"

fun is_numeric_dtype :: "'c selection \<Rightarrow> bool" where
  "is_numeric_dtype (Series col) = numeric_dtype col"
| "is_numeric_dtype (Frame cols) = False"

definition numeric_cols_of :: "'c dataframe \<Rightarrow> string list" where
  "numeric_cols_of df =
     filter (\<lambda>c. case getitem df c of Inl e \<Rightarrow> False | Inr s \<Rightarrow> is_numeric_dtype s) (map fst df)"

text \<open>Lines 148 to 176: the value of \<open>found_col\<close>, with what was printed.\<close>

definition detect_column :: "'c dataframe \<Rightarrow> event list \<times> string option" where
  "detect_column df =
     (let columns = map fst df;
          col_map = col_map_of columns
      in case match_candidates col_map candidates of
           Some col \<Rightarrow> ([], Some col)
         | None \<Rightarrow>
       (case match_substring columns of
           Some col \<Rightarrow> ([], Some col)
         | None \<Rightarrow>
       (let numeric_cols = numeric_cols_of df
        in if length numeric_cols = 1
           then ([PrintWarnSingleNumeric (hd numeric_cols)], Some (hd numeric_cols))
           else if col_map ''value'' \<noteq> None then ([], col_map ''value'')
           else if col_map ''measurement'' \<noteq> None then ([], col_map ''measurement'')
           else ([], None))))"

definition dropna :: "'n option list \<Rightarrow> 'n list" where
  "dropna series = List.map_filter (\<lambda>v. v) series"

text \<open>Lines 185 to 193; the array of shape \<open>(n, 1)\<close> is the list of its rows.\<close>

definition coerce_series :: "('c, 'n) env \<Rightarrow> 'c dataframe \<Rightarrow> string \<Rightarrow> exn + 'n list list" where
  "coerce_series env df found_col =
     (case getitem df found_col of
        Inl e \<Rightarrow> Inl e
      | Inr (Frame cols) \<Rightarrow> Inl TypeError
      | Inr (Series col) \<Rightarrow>
          (let series = dropna (map (to_numeric env) (cells col))
           in if series = [] then Inl (NoNumericValues found_col)
              else Inr (map (\<lambda>v. [v]) series)))"

definition load_data ::
  "('c, 'n) env \<Rightarrow> string option \<Rightarrow> event list \<times> (exn + 'n list list)" where
  "load_data env path_arg =
     (case (case path_arg of
              None \<Rightarrow> find_best_csv env (BASE_DIR env) PREFERRED_FILENAME
            | Some p \<Rightarrow> Inr p) of
        Inl e \<Rightarrow> ([], Inl e)
      | Inr path \<Rightarrow>
          if \<not> os_path_exists env path then ([], Inl (DataFileNotFound path))
          else
            (case os_path_getsize env path of
               Inl e \<Rightarrow> ([], Inl e)
             | Inr n \<Rightarrow>
                 if n = 0 then ([], Inl (DataFileEmpty path))
                 else
                   (case try_read env path of
                      (log, Inl e) \<Rightarrow> (PrintUsing path n # log, Inl e)
                    | (log, Inr df0) \<Rightarrow>
                        (let df = strip_columns df0
                         in case detect_column df of
                              (log2, None) \<Rightarrow>
                                (PrintUsing path n # log @ log2,
                                 Inl (ColumnNotDetected (map fst df)))
                            | (log2, Some found_col) \<Rightarrow>
                                (case coerce_series env df found_col of
                                   Inl e \<Rightarrow> (PrintUsing path n # log @ log2, Inl e)
                                 | Inr arr \<Rightarrow>
                                     (PrintUsing path n # log @ log2
                                        @ [PrintLoaded (length arr) found_col],
                                      Inr arr))))))"

section \<open>Example environments\<close>

text \<open>
  A small concrete environment: the module lives in \<open>/app\<close>, the file system, the
  results of \<open>glob\<close> and the text of the files are given by tables, and the numeric
  coercion knows three numerals.
\<close>

definition example_env ::
  "(string \<times> nat) list \<Rightarrow> (string \<times> string list) list \<Rightarrow> (string \<times> string list) list
     \<Rightarrow> (source \<Rightarrow> kwarg list \<Rightarrow> exn + string dataframe) \<Rightarrow> (string, nat) env" where
  "example_env sizes globs texts rc =
     \<lparr>BASE_DIR = ''/app'',
      file_size = map_of sizes,
      glob = (\<lambda>pat. case map_of globs pat of None \<Rightarrow> [] | Some ps \<Rightarrow> ps),
      open_text = (\<lambda>p. case map_of texts p of None \<Rightarrow> Inl (OSError p) | Some ls \<Rightarrow> Inr ls),
      read_csv = rc,
      to_numeric = map_of [(''12'', 12), (''7'', 7), (''30'', 30)]\<rparr>"

definition never_parses :: "source \<Rightarrow> kwarg list \<Rightarrow> exn + string dataframe" where
  "never_parses src kw = Inl (PandasError ''No columns to parse from file'')"

definition always_parses :: "source \<Rightarrow> kwarg list \<Rightarrow> exn + string dataframe" where
  "always_parses src kw = Inr [(''pm2_5'', Column True [''12'', ''7''])]"

definition fs_env :: "(string \<times> nat) list \<Rightarrow> (string \<times> string list) list \<Rightarrow> (string, nat) env" where
  "fs_env sizes globs = example_env sizes globs [] never_parses"

text \<open>A \<open>pd.read_csv\<close> that parses every input as one given table.\<close>

definition parses_as :: "string dataframe \<Rightarrow> source \<Rightarrow> kwarg list \<Rightarrow> exn + string dataframe" where
  "parses_as table src kw = Inr table"

section \<open>Column resolution as the specification words it\<close>

text \<open>
  The rules of the specification, in its order: an exact match, ignoring case, of a
  header with an alias of the fixed ordered list; the substring heuristics; the single
  numeric column; the generic names \<open>value\<close> and \<open>measurement\<close>. Headers are trimmed
  first. Where several headers differ only in case, a rule takes the last of them.
\<close>

definition last_with_lower :: "string list \<Rightarrow> string \<Rightarrow> string option" where
  "last_with_lower headers key =
     (let hs = filter (\<lambda>h. lower h = key) headers in if hs = [] then None else Some (last hs))"

definition rule_alias :: "string list \<Rightarrow> string option" where
  "rule_alias headers =
     (case List.find (\<lambda>a. last_with_lower headers (lower a) \<noteq> None) candidates of
        None \<Rightarrow> None
      | Some a \<Rightarrow> last_with_lower headers (lower a))"

definition rule_substring :: "string list \<Rightarrow> string option" where
  "rule_substring headers = List.find looks_like_pm25 headers"

definition rule_single_numeric :: "'c dataframe \<Rightarrow> string option" where
  "rule_single_numeric table = (case numeric_cols_of table of [h] \<Rightarrow> Some h | _ \<Rightarrow> None)"

definition rule_generic :: "string list \<Rightarrow> string option" where
  "rule_generic headers =
     (case last_with_lower headers ''value'' of
        Some h \<Rightarrow> Some h
      | None \<Rightarrow> last_with_lower headers ''measurement'')"

datatype rule = AliasRule | SubstringRule | SingleNumericRule | GenericRule

definition selectTargetColumn :: "'c dataframe \<Rightarrow> exn + rule \<times> string" where
  "selectTargetColumn table =
     (let trimmed = strip_columns table; headers = map fst trimmed
      in case rule_alias headers of
           Some h \<Rightarrow> Inr (AliasRule, h)
         | None \<Rightarrow>
       (case rule_substring headers of
           Some h \<Rightarrow> Inr (SubstringRule, h)
         | None \<Rightarrow>
       (case rule_single_numeric trimmed of
           Some h \<Rightarrow> Inr (SingleNumericRule, h)
         | None \<Rightarrow>
       (case rule_generic headers of
           Some h \<Rightarrow> Inr (GenericRule, h)
         | None \<Rightarrow> Inl (ColumnNotDetected headers)))))"

text \<open>Two parsed tables: one whose target column has two numerals, one with none.\<close>

definition mixed_table :: "string dataframe" where
  "mixed_table =
     [(''timestamp'', Column False [''t1'', ''t2'', ''t3'']),
      (''pm2_5'', Column False [''12'', ''N/A'', ''7''])]"

definition na_table :: "string dataframe" where
  "na_table =
     [(''timestamp'', Column False [''t1'', ''t2'']),
      (''pm2_5'', Column False [''N/A'', ''N/A''])]"

text \<open>A table with the two columns \<open>pm25\<close> and \<open>pm2_5\<close>, parsed by every read.\<close>

definition two_pm_table :: "string dataframe" where
  "two_pm_table =
     [(''timestamp'', Column False [''t1'']),
      (''pm25'', Column True [''30'']),
      (''pm2_5'', Column True [''12''])]"

definition two_pm_env :: "(string, nat) env" where
  "two_pm_env = example_env [(''/d/two.csv'', 40)] [] [] (parses_as two_pm_table)"

text \<open>
  A reader that parses the file only when called with given keyword arguments, and a
  file of two blank lines that no read parses.
\<close>

definition parses_only_with ::
  "kwarg list \<Rightarrow> string dataframe \<Rightarrow> source \<Rightarrow> kwarg list \<Rightarrow> exn + string dataframe" where
  "parses_only_with good table src kw =
     (if kw = good then Inr table else Inl (PandasError ''Error tokenizing data''))"

definition blank_env :: "(string, nat) env" where
  "blank_env =
     example_env [(''/d/blank.csv'', 2)] [] [(''/d/blank.csv'', [[CHR 0x0A], [CHR 0x0A]])] never_parses"

section \<open>The strategies of _try_read\<close>

text \<open>
  The keyword arguments of the six reads of the file by \<open>pd.read_csv\<close>, in the order of
  the code; a read yields when it returns a data frame with at least one column.
\<close>

definition strategy_kwargs :: "kwarg list list" where
  "strategy_kwargs = map fst attempts @ [skip_kwargs, quote_none_kwargs]"

definition yields :: "('c, 'n) env \<Rightarrow> string \<Rightarrow> kwarg list \<Rightarrow> bool" where
  "yields env path kw =
     (case read_csv env (Path path) kw of Inl e \<Rightarrow> False | Inr df \<Rightarrow> 0 < shape1 df)"

definition path_reads :: "event list \<Rightarrow> (string \<times> kwarg list) list" where
  "path_reads log =
     concat (map (\<lambda>ev. case ev of ReadCsv (Path p) kw \<Rightarrow> [(p, kw)] | _ \<Rightarrow> []) log)"

definition memory_reads :: "event list \<Rightarrow> (string \<times> kwarg list) list" where
  "memory_reads log =
     concat (map (\<lambda>ev. case ev of ReadCsv (StringIO s) kw \<Rightarrow> [(s, kw)] | _ \<Rightarrow> []) log)"

text \<open>The value of \<open>last_exc\<close> after a read that did not yield.\<close>

definition attempt_exc :: "('c, 'n) env \<Rightarrow> string \<Rightarrow> kwarg list \<times> string \<Rightarrow> exn" where
  "attempt_exc env path att =
     (case read_csv env (Path path) (fst att) of Inl e \<Rightarrow> e | Inr df \<Rightarrow> EmptyDataError (snd att))"

definition lenient_exc :: "('c, 'n) env \<Rightarrow> string \<Rightarrow> kwarg list \<Rightarrow> exn option \<Rightarrow> exn option" where
  "lenient_exc env path kw last_exc =
     (case read_csv env (Path path) kw of Inl e \<Rightarrow> Some e | Inr df \<Rightarrow> last_exc)"

definition exc_before_modal :: "('c, 'n) env \<Rightarrow> string \<Rightarrow> exn option" where
  "exc_before_modal env path =
     lenient_exc env path quote_none_kwargs
       (lenient_exc env path skip_kwargs (Some (attempt_exc env path (last attempts))))"

definition result_of :: "event list \<times> 'a outcome \<Rightarrow> string \<Rightarrow> event list \<times> (exn + 'a)" where
  "result_of run path =
     (case run of
        (log, Returned df) \<Rightarrow> (log, Inr df)
      | (log, Raised e) \<Rightarrow> (log, Inl e)
      | (log, Continue last_exc) \<Rightarrow> (log, Inl (ParseFailed path last_exc)))"

text \<open>
  A file of 2001 lines: a blank first line, then 400 lines of four comma-separated
  fields and 1600 lines of five; no line has a semicolon. What \<open>pd.read_csv\<close> makes of
  it: the C engine (the first three reads) takes the four fields of line 2 as the header
  and stops at line 402, the first with five fields; the python engine with a sniffed
  separator (the last three reads) cannot sniff a separator from the blank first line;
  read from memory with the semicolon as separator, the text is one column.
\<close>

definition ragged_lines :: "string list" where
  "ragged_lines =
     ''\<newline>'' # replicate 400 ''1,2,3,4\<newline>'' @ replicate 1600 ''1,2,3,4,5\<newline>''"

definition one_col_table :: "string dataframe" where
  "one_col_table =
     [(''1,2,3,4'', Column False (replicate 399 ''1,2,3,4'' @ replicate 1600 ''1,2,3,4,5''))]"

definition ragged_reads :: "source \<Rightarrow> kwarg list \<Rightarrow> exn + string dataframe" where
  "ragged_reads src kw =
     (case src of
        Path q \<Rightarrow>
          if Engine ''python'' \<in> set kw
          then Inl (PandasError ''Could not determine delimiter'')
          else Inl (PandasError ''Error tokenizing data. C error: Expected 4 fields in line 402, saw 5'')
      | StringIO s \<Rightarrow>
          if kw = [Sep (CHR '';'')] then Inr one_col_table
          else Inl (PandasError ''Error tokenizing data. C error: Expected 4 fields in line 402, saw 5''))"

definition ragged_env :: "(string, nat) env" where
  "ragged_env =
     example_env [(''/d/ragged.csv'', 19201)] [(''/d/*.csv'', [''/d/ragged.csv''])]
       [(''/d/ragged.csv'', ragged_lines)] ragged_reads"

section \<open>Field counts\<close>

text \<open>
  The number of fields of a line under a separator, and how many lines of a list have a
  given number of fields.
\<close>

definition field_count :: "char \<Rightarrow> string \<Rightarrow> nat" where
  "field_count sep line = length (split sep line)"

definition frequency :: "char \<Rightarrow> nat \<Rightarrow> string list \<Rightarrow> nat" where
  "frequency sep c lines = length (filter (\<lambda>l. field_count sep l = c) lines)"

section \<open>Properties of find_best_csv\<close>

lemma exists_nonempty_iff:
  "exists_nonempty env p \<longleftrightarrow> (\<exists>n. file_size env p = Some n \<and> 0 < n)"
  by (auto simp: exists_nonempty_def os_path_exists_def os_path_getsize_def split: option.splits)

lemma non_empty_of_existing:
  "list_all (\<lambda>p. file_size env p \<noteq> None) ps \<Longrightarrow>
   non_empty_of env ps = Inr (filter (\<lambda>t. 0 < snd t) (map (\<lambda>p. (p, the (file_size env p))) ps))"
  by (induction ps) (auto simp: os_path_getsize_def split: option.splits)

lemma hd_sort_key_least:
  fixes f :: "'a \<Rightarrow> int"
  assumes "xs \<noteq> []"
  shows "hd (sort_key f xs) \<in> set xs \<and> (\<forall>y\<in>set xs. f (hd (sort_key f xs)) \<le> f y)"
proof -
  obtain y ys where ys: "sort_key f xs = y # ys"
    using assms by (cases "sort_key f xs") (auto dest: arg_cong [where f = length])
  have "sorted (map f (y # ys))" using ys sorted_sort_key [of f xs] by simp
  moreover have "set (y # ys) = set xs" using ys set_sort [of f xs] by simp
  ultimately show ?thesis using ys by auto
qed

lemma hd_sort_by_size_desc:
  assumes "xs \<noteq> []"
  shows "hd (sort_by_size_desc xs) \<in> set xs \<and> (\<forall>t\<in>set xs. snd t \<le> snd (hd (sort_by_size_desc xs)))"
  using hd_sort_key_least [OF assms, of "\<lambda>t. - int (snd t)"]
  by (auto simp: sort_by_size_desc_def)

lemma hd_sort_by_size_desc_first:
  assumes "xs \<noteq> []"
  shows "hd (sort_by_size_desc xs) = hd (filter (\<lambda>t. snd t = snd (hd (sort_by_size_desc xs))) xs)"
proof -
  let ?f = "\<lambda>t::string \<times> nat. - int (snd t)"
  obtain y ys where ys: "sort_key ?f xs = y # ys"
    using assms by (cases "sort_key ?f xs") (auto dest: arg_cong [where f = length])
  have "filter (\<lambda>t. ?f t = ?f y) (sort_key ?f xs) = filter (\<lambda>t. ?f t = ?f y) xs"
    by (rule sort_key_stable)
  then have "hd (filter (\<lambda>t. ?f t = ?f y) xs) = hd (filter (\<lambda>t. ?f t = ?f y) (y # ys))"
    using ys by simp
  then have "hd (filter (\<lambda>t. snd t = snd y) xs) = y" by simp
  then show ?thesis using ys by (simp add: sort_by_size_desc_def)
qed

lemma find_best_csv_glob:
  assumes np: "\<not> exists_nonempty env (os_path_join base_dir preferred)"
      and nf: "\<not> exists_nonempty env (DATA_FILE env)"
      and ex: "list_all (\<lambda>p. file_size env p \<noteq> None) (glob env (os_path_join base_dir ''*.csv''))"
      and ne: "filter (\<lambda>p. file_size env p \<noteq> Some 0) (glob env (os_path_join base_dir ''*.csv'')) \<noteq> []"
  shows "\<exists>p n. find_best_csv env base_dir preferred = Inr p
            \<and> p \<in> set (glob env (os_path_join base_dir ''*.csv''))
            \<and> file_size env p = Some n \<and> 0 < n
            \<and> (\<forall>q\<in>set (glob env (os_path_join base_dir ''*.csv'')). \<forall>m. file_size env q = Some m \<longrightarrow> m \<le> n)"
proof -
  let ?csvs = "glob env (os_path_join base_dir ''*.csv'')"
  let ?ne = "filter (\<lambda>t. 0 < snd t) (map (\<lambda>p. (p, the (file_size env p))) ?csvs)"
  have noe: "non_empty_of env ?csvs = Inr ?ne" by (rule non_empty_of_existing [OF ex])
  from ne obtain p0 where p0: "p0 \<in> set ?csvs" "file_size env p0 \<noteq> Some 0"
    by (auto simp: filter_empty_conv)
  with ex obtain n0 where "file_size env p0 = Some n0" "0 < n0"
    by (auto simp: list_all_iff)
  with p0 have "(p0, n0) \<in> set ?ne" by force
  then have nonempty: "?ne \<noteq> []" by (metis empty_iff empty_set)
  have csvs: "?csvs \<noteq> []" using p0 by auto
  let ?t = "hd (sort_by_size_desc ?ne)"
  have res: "find_best_csv env base_dir preferred = Inr (fst ?t)"
    using np nf csvs nonempty by (simp add: find_best_csv_def Let_def noe)
  have t: "?t \<in> set ?ne" "\<forall>u\<in>set ?ne. snd u \<le> snd ?t"
    using hd_sort_by_size_desc [OF nonempty] by blast+
  from t(1) have t1: "fst ?t \<in> set ?csvs" "file_size env (fst ?t) = Some (snd ?t)" "0 < snd ?t"
    using ex by (auto simp: list_all_iff)
  have "\<forall>q\<in>set ?csvs. \<forall>m. file_size env q = Some m \<longrightarrow> m \<le> snd ?t"
  proof (intro ballI allI impI)
    fix q m assume q: "q \<in> set ?csvs" "file_size env q = Some m"
    show "m \<le> snd ?t"
    proof (cases "0 < m")
      case True
      with q have "(q, m) \<in> set ?ne" by force
      with t(2) show ?thesis by force
    qed simp
  qed
  with res t1 show ?thesis by blast
qed

lemma non_empty_of_sound:
  "non_empty_of env ps = Inr ne \<Longrightarrow> t \<in> set ne \<Longrightarrow> file_size env (fst t) = Some (snd t) \<and> 0 < snd t"
proof (induction ps arbitrary: ne)
  case Nil
  then show ?case by simp
next
  case (Cons p ps)
  then show ?case
    by (auto simp: os_path_getsize_def split: option.splits sum.splits if_splits)
qed

lemma non_empty_of_all_empty:
  "list_all (\<lambda>p. file_size env p = Some 0) ps \<Longrightarrow> non_empty_of env ps = Inr []"
  by (induction ps) (auto simp: os_path_getsize_def)

lemma find_best_csv_nonempty:
  assumes "find_best_csv env base_dir preferred = Inr q"
  shows "\<exists>n. file_size env q = Some n \<and> 0 < n"
proof (cases "exists_nonempty env (os_path_join base_dir preferred)")
  case True
  with assms have "q = os_path_join base_dir preferred"
    by (simp add: find_best_csv_def Let_def)
  with True show ?thesis by (simp only: exists_nonempty_iff)
next
  case np: False
  show ?thesis
  proof (cases "exists_nonempty env (DATA_FILE env)")
    case True
    with np assms have "q = DATA_FILE env"
      by (simp add: find_best_csv_def Let_def)
    with True show ?thesis by (simp only: exists_nonempty_iff)
  next
    case False
    with np assms obtain ne where ne: "non_empty_of env (glob env (os_path_join base_dir ''*.csv'')) = Inr ne"
      "ne \<noteq> []" "q = fst (hd (sort_by_size_desc ne))"
      by (auto simp: find_best_csv_def Let_def split: if_splits sum.splits)
    from hd_sort_by_size_desc [OF ne(2)] have "hd (sort_by_size_desc ne) \<in> set ne" by blast
    from non_empty_of_sound [OF ne(1) this] ne(3) show ?thesis by blast
  qed
qed

text \<open>
  C6, as amended. \<open>find_best_csv\<close> returns the preferred file when it exists and is not
  empty; otherwise the fixed fallback file when that exists and is not empty; otherwise
  it looks only at the files that \<open>glob\<close> finds for \<open>*.csv\<close> in the directory: with none
  it raises FileNotFoundError, with all of them of zero bytes it raises ValueError, and
  with one of more than zero bytes (all of them existing) it returns one of the largest
  size. An empty preferred or fallback file outside that set does not turn the first
  error into the second.
\<close>

theorem find_best_csv_resolves:
  "(exists_nonempty env (os_path_join base_dir preferred) \<longrightarrow>
      find_best_csv env base_dir preferred = Inr (os_path_join base_dir preferred))
   \<and> (\<not> exists_nonempty env (os_path_join base_dir preferred) \<and> exists_nonempty env (DATA_FILE env) \<longrightarrow>
      find_best_csv env base_dir preferred = Inr (DATA_FILE env))
   \<and> (\<not> exists_nonempty env (os_path_join base_dir preferred) \<and> \<not> exists_nonempty env (DATA_FILE env) \<longrightarrow>
      (glob env (os_path_join base_dir ''*.csv'') = [] \<longrightarrow>
         find_best_csv env base_dir preferred = Inl (NoCsvFound base_dir)
         \<and> exn_class (NoCsvFound base_dir) = ''FileNotFoundError'')
      \<and> (glob env (os_path_join base_dir ''*.csv'') \<noteq> []
           \<and> list_all (\<lambda>p. file_size env p = Some 0) (glob env (os_path_join base_dir ''*.csv'')) \<longrightarrow>
         find_best_csv env base_dir preferred
           = Inl (AllCsvEmpty base_dir (glob env (os_path_join base_dir ''*.csv'')))
         \<and> exn_class (AllCsvEmpty base_dir (glob env (os_path_join base_dir ''*.csv''))) = ''ValueError'')
      \<and> (list_all (\<lambda>p. file_size env p \<noteq> None) (glob env (os_path_join base_dir ''*.csv''))
           \<and> filter (\<lambda>p. file_size env p \<noteq> Some 0) (glob env (os_path_join base_dir ''*.csv'')) \<noteq> [] \<longrightarrow>
         (\<exists>p n. find_best_csv env base_dir preferred = Inr p
            \<and> p \<in> set (glob env (os_path_join base_dir ''*.csv''))
            \<and> file_size env p = Some n \<and> 0 < n
            \<and> (\<forall>q\<in>set (glob env (os_path_join base_dir ''*.csv'')).
                  \<forall>m. file_size env q = Some m \<longrightarrow> m \<le> n))))"
proof (intro conjI impI)
  assume "exists_nonempty env (os_path_join base_dir preferred)"
  then show "find_best_csv env base_dir preferred = Inr (os_path_join base_dir preferred)"
    by (simp add: find_best_csv_def Let_def)
next
  assume "\<not> exists_nonempty env (os_path_join base_dir preferred) \<and> exists_nonempty env (DATA_FILE env)"
  then show "find_best_csv env base_dir preferred = Inr (DATA_FILE env)"
    by (simp add: find_best_csv_def Let_def)
next
  assume "\<not> exists_nonempty env (os_path_join base_dir preferred) \<and> \<not> exists_nonempty env (DATA_FILE env)"
    and "glob env (os_path_join base_dir ''*.csv'') = []"
  then show "find_best_csv env base_dir preferred = Inl (NoCsvFound base_dir)"
    by (simp add: find_best_csv_def Let_def)
next
  show "exn_class (NoCsvFound base_dir) = ''FileNotFoundError''" by simp
next
  assume a: "\<not> exists_nonempty env (os_path_join base_dir preferred) \<and> \<not> exists_nonempty env (DATA_FILE env)"
    and b: "glob env (os_path_join base_dir ''*.csv'') \<noteq> []
        \<and> list_all (\<lambda>p. file_size env p = Some 0) (glob env (os_path_join base_dir ''*.csv''))"
  from b have "non_empty_of env (glob env (os_path_join base_dir ''*.csv'')) = Inr []"
    by (simp add: non_empty_of_all_empty)
  with a b show "find_best_csv env base_dir preferred
      = Inl (AllCsvEmpty base_dir (glob env (os_path_join base_dir ''*.csv'')))"
    by (simp add: find_best_csv_def Let_def)
next
  show "exn_class (AllCsvEmpty base_dir (glob env (os_path_join base_dir ''*.csv''))) = ''ValueError''"
    by simp
next
  assume "\<not> exists_nonempty env (os_path_join base_dir preferred) \<and> \<not> exists_nonempty env (DATA_FILE env)"
    and "list_all (\<lambda>p. file_size env p \<noteq> None) (glob env (os_path_join base_dir ''*.csv''))
        \<and> filter (\<lambda>p. file_size env p \<noteq> Some 0) (glob env (os_path_join base_dir ''*.csv'')) \<noteq> []"
  then show "\<exists>p n. find_best_csv env base_dir preferred = Inr p
            \<and> p \<in> set (glob env (os_path_join base_dir ''*.csv''))
            \<and> file_size env p = Some n \<and> 0 < n
            \<and> (\<forall>q\<in>set (glob env (os_path_join base_dir ''*.csv'')).
                  \<forall>m. file_size env q = Some m \<longrightarrow> m \<le> n)"
    using find_best_csv_glob [of env base_dir preferred] by blast
qed

lemma non_empty_of_subset:
  "non_empty_of env ps = Inr ne \<Longrightarrow> t \<in> set ne \<Longrightarrow> fst t \<in> set ps"
proof (induction ps arbitrary: ne)
  case Nil
  then show ?case by simp
next
  case (Cons p ps)
  then show ?case
    by (auto simp: os_path_getsize_def split: option.splits sum.splits if_splits)
qed

lemmas ex_simps = fs_env_def example_env_def exists_nonempty_def os_path_exists_def
  os_path_getsize_def os_path_join_def startswith_def DATA_FILE_def

theorem find_best_csv_resolves_witness:
  "find_best_csv (fs_env [(''/data/live.csv'', 10)] [(''/data/*.csv'', [''/data/live.csv''])])
        ''/data'' ''live.csv'' = Inr ''/data/live.csv''
   \<and> find_best_csv (fs_env [(''/data/live.csv'', 0), (''/app/air_quality_data.csv'', 5)]
          [(''/data/*.csv'', [''/data/live.csv'']), (''/app/*.csv'', [''/app/air_quality_data.csv''])])
        ''/data'' ''live.csv'' = Inr ''/app/air_quality_data.csv''
   \<and> find_best_csv (fs_env [] []) ''/data'' ''live.csv'' = Inl (NoCsvFound ''/data'')
   \<and> find_best_csv (fs_env [(''/data/a.csv'', 0), (''/data/b.csv'', 0)]
          [(''/data/*.csv'', [''/data/a.csv'', ''/data/b.csv''])]) ''/data'' ''live.csv''
        = Inl (AllCsvEmpty ''/data'' [''/data/a.csv'', ''/data/b.csv''])
   \<and> find_best_csv (fs_env [(''/data/a.csv'', 3), (''/data/b.csv'', 9), (''/data/c.csv'', 0)]
          [(''/data/*.csv'', [''/data/a.csv'', ''/data/b.csv'', ''/data/c.csv''])]) ''/data'' ''live.csv''
        = Inr ''/data/b.csv''"
proof (intro conjI)
  show "find_best_csv (fs_env [(''/data/live.csv'', 10)] [(''/data/*.csv'', [''/data/live.csv''])])
        ''/data'' ''live.csv'' = Inr ''/data/live.csv''"
    using find_best_csv_resolves [of "fs_env [(''/data/live.csv'', 10)] [(''/data/*.csv'', [''/data/live.csv''])]"
        "''/data''" "''live.csv''"]
    by (simp add: ex_simps)
  show "find_best_csv (fs_env [(''/data/live.csv'', 0), (''/app/air_quality_data.csv'', 5)]
          [(''/data/*.csv'', [''/data/live.csv'']), (''/app/*.csv'', [''/app/air_quality_data.csv''])])
        ''/data'' ''live.csv'' = Inr ''/app/air_quality_data.csv''"
    using find_best_csv_resolves [of "fs_env [(''/data/live.csv'', 0), (''/app/air_quality_data.csv'', 5)]
          [(''/data/*.csv'', [''/data/live.csv'']), (''/app/*.csv'', [''/app/air_quality_data.csv''])]"
        "''/data''" "''live.csv''"]
    by (simp add: ex_simps)
  show "find_best_csv (fs_env [] []) ''/data'' ''live.csv'' = Inl (NoCsvFound ''/data'')"
    using find_best_csv_resolves [of "fs_env [] []" "''/data''" "''live.csv''"]
    by (simp add: ex_simps)
  show "find_best_csv (fs_env [(''/data/a.csv'', 0), (''/data/b.csv'', 0)]
          [(''/data/*.csv'', [''/data/a.csv'', ''/data/b.csv''])]) ''/data'' ''live.csv''
        = Inl (AllCsvEmpty ''/data'' [''/data/a.csv'', ''/data/b.csv''])"
    using find_best_csv_resolves [of "fs_env [(''/data/a.csv'', 0), (''/data/b.csv'', 0)]
          [(''/data/*.csv'', [''/data/a.csv'', ''/data/b.csv''])]" "''/data''" "''live.csv''"]
    by (simp add: ex_simps)
  let ?E = "fs_env [(''/data/a.csv'', 3), (''/data/b.csv'', 9), (''/data/c.csv'', 0)]
          [(''/data/*.csv'', [''/data/a.csv'', ''/data/b.csv'', ''/data/c.csv''])]"
  have g: "glob ?E (os_path_join ''/data'' ''*.csv'') = [''/data/a.csv'', ''/data/b.csv'', ''/data/c.csv'']"
    by (simp add: ex_simps)
  have sz: "file_size ?E ''/data/a.csv'' = Some 3" "file_size ?E ''/data/b.csv'' = Some 9"
    "file_size ?E ''/data/c.csv'' = Some 0"
    by (simp_all add: ex_simps)
  have np: "\<not> exists_nonempty ?E (os_path_join ''/data'' ''live.csv'')"
    and nf: "\<not> exists_nonempty ?E (DATA_FILE ?E)"
    by (simp_all add: ex_simps)
  from find_best_csv_resolves [of ?E "''/data''" "''live.csv''"] np nf
  obtain p n where r: "find_best_csv ?E ''/data'' ''live.csv'' = Inr p"
    and p: "p \<in> set [''/data/a.csv'', ''/data/b.csv'', ''/data/c.csv'']"
    and n: "file_size ?E p = Some n" "0 < n"
    and mx: "\<forall>q\<in>set [''/data/a.csv'', ''/data/b.csv'', ''/data/c.csv'']. \<forall>m. file_size ?E q = Some m \<longrightarrow> m \<le> n"
    unfolding g by (auto simp: sz)
  from mx sz(2) have "9 \<le> n" by simp
  with p n sz have "p = ''/data/b.csv''" by auto
  with r show "find_best_csv ?E ''/data'' ''live.csv'' = Inr ''/data/b.csv''" by simp
qed

text \<open>
  C6 as stated fails: the directory \<open>/data\<close> is empty and the module directory holds
  the fallback file with zero bytes, so a candidate file exists and every candidate is
  empty; what is raised is the FileNotFoundError for no CSV file in \<open>/data\<close>, not the
  ValueError for empty files.
\<close>

theorem find_best_csv_resolves_counterexample:
  "file_size (fs_env [(''/app/air_quality_data.csv'', 0)] [(''/app/*.csv'', [''/app/air_quality_data.csv''])])
      (DATA_FILE (fs_env [(''/app/air_quality_data.csv'', 0)] [(''/app/*.csv'', [''/app/air_quality_data.csv''])]))
     = Some 0
   \<and> glob (fs_env [(''/app/air_quality_data.csv'', 0)] [(''/app/*.csv'', [''/app/air_quality_data.csv''])])
        (os_path_join ''/data'' ''*.csv'') = []
   \<and> find_best_csv (fs_env [(''/app/air_quality_data.csv'', 0)] [(''/app/*.csv'', [''/app/air_quality_data.csv''])])
        ''/data'' PREFERRED_FILENAME = Inl (NoCsvFound ''/data'')
   \<and> exn_class (NoCsvFound ''/data'') = ''FileNotFoundError''"
  by (simp add: find_best_csv_def PREFERRED_FILENAME_def ex_simps)

text \<open>
  C10. The fallback path \<open>DATA_FILE\<close> is built from the directory of the module, not from
  the argument \<open>base_dir\<close>: whatever \<open>base_dir\<close> is, when the preferred file under
  \<open>base_dir\<close> is missing or empty, the file \<open>air_quality_data.csv\<close> of the module
  directory is returned if it exists and is not empty; the preferred path and the
  \<open>*.csv\<close> candidates are taken from \<open>base_dir\<close>.
\<close>

theorem fallback_ignores_base_dir:
  "DATA_FILE env = os_path_join (BASE_DIR env) ''air_quality_data.csv''
   \<and> (\<not> exists_nonempty env (os_path_join base_dir preferred)
        \<and> exists_nonempty env (os_path_join (BASE_DIR env) ''air_quality_data.csv'') \<longrightarrow>
      find_best_csv env base_dir preferred = Inr (os_path_join (BASE_DIR env) ''air_quality_data.csv''))
   \<and> (exists_nonempty env (os_path_join base_dir preferred) \<longrightarrow>
      find_best_csv env base_dir preferred = Inr (os_path_join base_dir preferred))
   \<and> (\<not> exists_nonempty env (os_path_join base_dir preferred)
        \<and> \<not> exists_nonempty env (os_path_join (BASE_DIR env) ''air_quality_data.csv'') \<longrightarrow>
      (\<forall>p. find_best_csv env base_dir preferred = Inr p \<longrightarrow>
         p \<in> set (glob env (os_path_join base_dir ''*.csv''))))"
proof (intro conjI impI allI)
  show "DATA_FILE env = os_path_join (BASE_DIR env) ''air_quality_data.csv''"
    by (simp add: DATA_FILE_def)
next
  assume "\<not> exists_nonempty env (os_path_join base_dir preferred)
        \<and> exists_nonempty env (os_path_join (BASE_DIR env) ''air_quality_data.csv'')"
  then show "find_best_csv env base_dir preferred = Inr (os_path_join (BASE_DIR env) ''air_quality_data.csv'')"
    by (simp add: find_best_csv_def Let_def DATA_FILE_def)
next
  assume "exists_nonempty env (os_path_join base_dir preferred)"
  then show "find_best_csv env base_dir preferred = Inr (os_path_join base_dir preferred)"
    by (simp add: find_best_csv_def Let_def)
next
  fix p
  assume a: "\<not> exists_nonempty env (os_path_join base_dir preferred)
        \<and> \<not> exists_nonempty env (os_path_join (BASE_DIR env) ''air_quality_data.csv'')"
    and r: "find_best_csv env base_dir preferred = Inr p"
  from a r obtain ne where ne: "non_empty_of env (glob env (os_path_join base_dir ''*.csv'')) = Inr ne"
      "ne \<noteq> []" "p = fst (hd (sort_by_size_desc ne))"
    by (auto simp: find_best_csv_def Let_def DATA_FILE_def split: if_splits sum.splits)
  from hd_sort_by_size_desc [OF ne(2)] have "hd (sort_by_size_desc ne) \<in> set ne" by blast
  with ne(1,3) show "p \<in> set (glob env (os_path_join base_dir ''*.csv''))"
    using non_empty_of_subset by blast
qed

theorem fallback_ignores_base_dir_witness:
  "(find_best_csv (fs_env [(''/data/live.csv'', 0), (''/app/air_quality_data.csv'', 5)] [])
      ''/data'' ''live.csv'' = Inr ''/app/air_quality_data.csv''
   \<and> find_best_csv (fs_env [(''/data/live.csv'', 0), (''/app/air_quality_data.csv'', 5)] [])
      ''/mnt/usb'' PREFERRED_FILENAME = Inr ''/app/air_quality_data.csv''
   \<and> find_best_csv (fs_env [(''/mnt/usb/live_air_quality.csv'', 8), (''/app/air_quality_data.csv'', 5)] [])
      ''/mnt/usb'' PREFERRED_FILENAME = Inr ''/mnt/usb/live_air_quality.csv'')
   \<and> (''/mnt/usb/a.csv'' \<in> set (glob (fs_env [(''/mnt/usb/a.csv'', 4)] [(''/mnt/usb/*.csv'', [''/mnt/usb/a.csv''])])
            (os_path_join ''/mnt/usb'' ''*.csv'')))"
proof (rule conjI)
  show "find_best_csv (fs_env [(''/data/live.csv'', 0), (''/app/air_quality_data.csv'', 5)] [])
      ''/data'' ''live.csv'' = Inr ''/app/air_quality_data.csv''
   \<and> find_best_csv (fs_env [(''/data/live.csv'', 0), (''/app/air_quality_data.csv'', 5)] [])
      ''/mnt/usb'' PREFERRED_FILENAME = Inr ''/app/air_quality_data.csv''
   \<and> find_best_csv (fs_env [(''/mnt/usb/live_air_quality.csv'', 8), (''/app/air_quality_data.csv'', 5)] [])
      ''/mnt/usb'' PREFERRED_FILENAME = Inr ''/mnt/usb/live_air_quality.csv''"
    proof (intro conjI)
      show "find_best_csv (fs_env [(''/data/live.csv'', 0), (''/app/air_quality_data.csv'', 5)] [])
          ''/data'' ''live.csv'' = Inr ''/app/air_quality_data.csv''"
        using fallback_ignores_base_dir
          [of "fs_env [(''/data/live.csv'', 0), (''/app/air_quality_data.csv'', 5)] []" "''/data''" "''live.csv''"]
        by (simp add: ex_simps)
      show "find_best_csv (fs_env [(''/data/live.csv'', 0), (''/app/air_quality_data.csv'', 5)] [])
          ''/mnt/usb'' PREFERRED_FILENAME = Inr ''/app/air_quality_data.csv''"
        using fallback_ignores_base_dir
          [of "fs_env [(''/data/live.csv'', 0), (''/app/air_quality_data.csv'', 5)] []" "''/mnt/usb''"
              PREFERRED_FILENAME]
        by (simp add: ex_simps PREFERRED_FILENAME_def)
      show "find_best_csv (fs_env [(''/mnt/usb/live_air_quality.csv'', 8), (''/app/air_quality_data.csv'', 5)] [])
          ''/mnt/usb'' PREFERRED_FILENAME = Inr ''/mnt/usb/live_air_quality.csv''"
        using fallback_ignores_base_dir
          [of "fs_env [(''/mnt/usb/live_air_quality.csv'', 8), (''/app/air_quality_data.csv'', 5)] []"
              "''/mnt/usb''" PREFERRED_FILENAME]
        by (simp add: ex_simps PREFERRED_FILENAME_def)
    qed
  show "''/mnt/usb/a.csv'' \<in> set (glob (fs_env [(''/mnt/usb/a.csv'', 4)] [(''/mnt/usb/*.csv'', [''/mnt/usb/a.csv''])])
            (os_path_join ''/mnt/usb'' ''*.csv''))"
    proof -
      let ?E = "fs_env [(''/mnt/usb/a.csv'', 4)] [(''/mnt/usb/*.csv'', [''/mnt/usb/a.csv''])]"
      have n: "\<not> exists_nonempty ?E (os_path_join ''/mnt/usb'' PREFERRED_FILENAME)
            \<and> \<not> exists_nonempty ?E (os_path_join (BASE_DIR ?E) ''air_quality_data.csv'')"
        by (simp add: ex_simps PREFERRED_FILENAME_def)
      have r: "find_best_csv ?E ''/mnt/usb'' PREFERRED_FILENAME = Inr ''/mnt/usb/a.csv''"
        by (simp add: find_best_csv_def PREFERRED_FILENAME_def ex_simps sort_by_size_desc_def)
      from fallback_ignores_base_dir [of ?E "''/mnt/usb''" PREFERRED_FILENAME, THEN conjunct2, THEN conjunct2,
          THEN conjunct2] n r
      show ?thesis by blast
    qed
qed

section \<open>Properties of load_data\<close>

text \<open>
  C7. Given the path of a file of zero bytes, \<open>load_data\<close> raises the ValueError for an
  empty data file, and given a path that does not exist it raises FileNotFoundError; in
  both cases nothing was read or printed before, so no parse strategy ran. Without a path,
  the file that \<open>find_best_csv\<close> picks is never empty, and when \<open>find_best_csv\<close> raises,
  that exception is the result, again before any parse.
\<close>

theorem empty_file_fails_before_parsing:
  "(file_size env p = Some 0 \<longrightarrow>
      load_data env (Some p) = ([], Inl (DataFileEmpty p)) \<and> exn_class (DataFileEmpty p) = ''ValueError'')
   \<and> (file_size env p = None \<longrightarrow>
      load_data env (Some p) = ([], Inl (DataFileNotFound p))
      \<and> exn_class (DataFileNotFound p) = ''FileNotFoundError'')
   \<and> (\<forall>q. find_best_csv env (BASE_DIR env) PREFERRED_FILENAME = Inr q \<longrightarrow>
         (\<exists>n. file_size env q = Some n \<and> 0 < n))
   \<and> (\<forall>e. find_best_csv env (BASE_DIR env) PREFERRED_FILENAME = Inl e \<longrightarrow>
         load_data env None = ([], Inl e))"
proof (intro conjI impI allI)
  assume "file_size env p = Some 0"
  then show "load_data env (Some p) = ([], Inl (DataFileEmpty p))"
    by (simp add: load_data_def os_path_exists_def os_path_getsize_def)
next
  show "exn_class (DataFileEmpty p) = ''ValueError''" by simp
next
  assume "file_size env p = None"
  then show "load_data env (Some p) = ([], Inl (DataFileNotFound p))"
    by (simp add: load_data_def os_path_exists_def)
next
  show "exn_class (DataFileNotFound p) = ''FileNotFoundError''" by simp
next
  fix q assume "find_best_csv env (BASE_DIR env) PREFERRED_FILENAME = Inr q"
  then show "\<exists>n. file_size env q = Some n \<and> 0 < n" by (rule find_best_csv_nonempty)
next
  fix e assume "find_best_csv env (BASE_DIR env) PREFERRED_FILENAME = Inl e"
  then show "load_data env None = ([], Inl e)" by (simp add: load_data_def)
qed

theorem empty_file_fails_before_parsing_witness:
  "(load_data (example_env [(''/data/log.csv'', 0)] [] [] always_parses) (Some ''/data/log.csv'')
     = ([], Inl (DataFileEmpty ''/data/log.csv''))
   \<and> load_data (example_env [(''/data/log.csv'', 0)] [] [] always_parses) (Some ''/data/gone.csv'')
     = ([], Inl (DataFileNotFound ''/data/gone.csv''))
   \<and> load_data (example_env [(''/app/live_air_quality.csv'', 0), (''/app/air_quality_data.csv'', 0)]
        [(''/app/*.csv'', [''/app/live_air_quality.csv'', ''/app/air_quality_data.csv''])] []
        always_parses) None
     = ([], Inl (AllCsvEmpty ''/app'' [''/app/live_air_quality.csv'', ''/app/air_quality_data.csv''])))
   \<and> (\<exists>n. file_size (fs_env [(''/app/live_air_quality.csv'', 7)] []) ''/app/live_air_quality.csv'' = Some n \<and> 0 < n)"
proof (rule conjI)
  show "load_data (example_env [(''/data/log.csv'', 0)] [] [] always_parses) (Some ''/data/log.csv'')
     = ([], Inl (DataFileEmpty ''/data/log.csv''))
   \<and> load_data (example_env [(''/data/log.csv'', 0)] [] [] always_parses) (Some ''/data/gone.csv'')
     = ([], Inl (DataFileNotFound ''/data/gone.csv''))
   \<and> load_data (example_env [(''/app/live_air_quality.csv'', 0), (''/app/air_quality_data.csv'', 0)]
        [(''/app/*.csv'', [''/app/live_air_quality.csv'', ''/app/air_quality_data.csv''])] []
        always_parses) None
     = ([], Inl (AllCsvEmpty ''/app'' [''/app/live_air_quality.csv'', ''/app/air_quality_data.csv'']))"
    proof (intro conjI)
      show "load_data (example_env [(''/data/log.csv'', 0)] [] [] always_parses) (Some ''/data/log.csv'')
         = ([], Inl (DataFileEmpty ''/data/log.csv''))"
        using empty_file_fails_before_parsing
          [of "example_env [(''/data/log.csv'', 0)] [] [] always_parses" "''/data/log.csv''"]
        by (simp add: example_env_def)
      show "load_data (example_env [(''/data/log.csv'', 0)] [] [] always_parses) (Some ''/data/gone.csv'')
         = ([], Inl (DataFileNotFound ''/data/gone.csv''))"
        using empty_file_fails_before_parsing
          [of "example_env [(''/data/log.csv'', 0)] [] [] always_parses" "''/data/gone.csv''"]
        by (simp add: example_env_def)
      let ?E = "example_env [(''/app/live_air_quality.csv'', 0), (''/app/air_quality_data.csv'', 0)]
            [(''/app/*.csv'', [''/app/live_air_quality.csv'', ''/app/air_quality_data.csv''])] []
            always_parses"
      have "find_best_csv ?E (BASE_DIR ?E) PREFERRED_FILENAME
          = Inl (AllCsvEmpty ''/app'' [''/app/live_air_quality.csv'', ''/app/air_quality_data.csv''])"
        by (simp add: find_best_csv_def PREFERRED_FILENAME_def ex_simps)
      with empty_file_fails_before_parsing [of ?E]
      show "load_data ?E None
         = ([], Inl (AllCsvEmpty ''/app'' [''/app/live_air_quality.csv'', ''/app/air_quality_data.csv'']))"
        by blast
    qed
  show "\<exists>n. file_size (fs_env [(''/app/live_air_quality.csv'', 7)] []) ''/app/live_air_quality.csv'' = Some n \<and> 0 < n"
    proof -
      let ?E = "fs_env [(''/app/live_air_quality.csv'', 7)] []"
      have "find_best_csv ?E (BASE_DIR ?E) PREFERRED_FILENAME = Inr ''/app/live_air_quality.csv''"
        by (simp add: find_best_csv_def PREFERRED_FILENAME_def ex_simps)
      with empty_file_fails_before_parsing [of ?E] show ?thesis by blast
    qed
qed

section \<open>Properties of column resolution\<close>

lemma col_map_of_snoc: "col_map_of (hs @ [h]) = (col_map_of hs)(lower h \<mapsto> h)"
  by (simp add: col_map_of_def)

lemma col_map_of_last: "col_map_of headers key = last_with_lower headers key"
proof (induction headers rule: rev_induct)
  case Nil
  show ?case by (simp add: col_map_of_def last_with_lower_def)
next
  case (snoc h hs)
  show ?case
  proof (cases "lower h = key")
    case True
    then show ?thesis
      by (simp add: col_map_of_snoc last_with_lower_def)
  next
    case False
    with snoc show ?thesis
      by (simp add: col_map_of_snoc last_with_lower_def)
  qed
qed

lemma match_candidates_find:
  "match_candidates m cands =
     (case List.find (\<lambda>a. m (lower a) \<noteq> None) cands of None \<Rightarrow> None | Some a \<Rightarrow> m (lower a))"
  by (induction cands) (auto split: option.splits)

lemma match_candidates_rule_alias:
  "match_candidates (col_map_of headers) candidates = rule_alias headers"
proof -
  have "col_map_of headers = last_with_lower headers" by (rule ext) (rule col_map_of_last)
  then show ?thesis by (simp add: match_candidates_find rule_alias_def)
qed

lemma match_substring_find: "match_substring headers = rule_substring headers"
  by (induction headers) (auto simp: rule_substring_def)

lemma detect_column_rules:
  "detect_column (strip_columns table) =
     (case selectTargetColumn table of
        Inr (SingleNumericRule, h) \<Rightarrow> ([PrintWarnSingleNumeric h], Some h)
      | Inr (r, h) \<Rightarrow> ([], Some h)
      | Inl e \<Rightarrow> ([], None))"
  by (auto simp: detect_column_def selectTargetColumn_def Let_def match_candidates_rule_alias
      match_substring_find rule_single_numeric_def rule_generic_def col_map_of_last
      split: option.splits list.splits)

lemma rule_substring_looks: "rule_substring headers = Some h \<Longrightarrow> looks_like_pm25 h"
  by (auto simp: rule_substring_def dest: find_Some_iff [THEN iffD1])

lemma rule_substring_None: "rule_substring headers = None \<Longrightarrow> h \<in> set headers \<Longrightarrow> \<not> looks_like_pm25 h"
  by (auto simp: rule_substring_def find_None_iff)

lemma pm25_header_looks: "looks_like_pm25 ''PM2.5 (ug/m3)''"
  by (simp add: looks_like_pm25_def lower_def lower_char_def startswith_def char_of_eq_iff)

lemma pm25_header_no_alias: "rule_alias [''PM2.5 (ug/m3)''] = None"
  by (simp add: rule_alias_def last_with_lower_def candidates_def lower_def lower_char_def char_of_eq_iff)

lemma pm25_header_strip: "strip ''PM2.5 (ug/m3)'' = ''PM2.5 (ug/m3)''"
  by (simp add: strip_def is_space_def)

text \<open>
  C4. The column that \<open>load_data\<close> detects is the one the rules of the specification
  give, tried in their order on the trimmed headers (alias list, substring heuristics,
  single numeric column with a printed warning, then \<open>value\<close> and \<open>measurement\<close>); when
  no rule resolves, \<open>load_data\<close> raises the KeyError that lists the trimmed headers; and
  the header \<open>PM2.5 (ug/m3)\<close> matches no alias and is resolved by the substring
  heuristics.
\<close>

theorem column_resolution_order:
  "detect_column (strip_columns table) =
     (case selectTargetColumn table of
        Inr (SingleNumericRule, h) \<Rightarrow> ([PrintWarnSingleNumeric h], Some h)
      | Inr (r, h) \<Rightarrow> ([], Some h)
      | Inl e \<Rightarrow> ([], None))
   \<and> (file_size env p = Some n \<and> 0 < n \<and> try_read env p = (log, Inr table)
        \<and> selectTargetColumn table = Inl e \<longrightarrow>
      e = ColumnNotDetected (map (\<lambda>c. strip (fst c)) table)
      \<and> exn_class e = ''KeyError''
      \<and> load_data env (Some p) = (PrintUsing p n # log, Inl e))
   \<and> (rule_alias (map (\<lambda>c. strip (fst c)) table) = None
        \<and> ''PM2.5 (ug/m3)'' \<in> set (map (\<lambda>c. strip (fst c)) table) \<longrightarrow>
      (\<exists>h. selectTargetColumn table = Inr (SubstringRule, h) \<and> looks_like_pm25 h))
   \<and> selectTargetColumn [(''PM2.5 (ug/m3)'', col)] = Inr (SubstringRule, ''PM2.5 (ug/m3)'')"
proof (intro conjI impI)
  show "detect_column (strip_columns table) =
     (case selectTargetColumn table of
        Inr (SingleNumericRule, h) \<Rightarrow> ([PrintWarnSingleNumeric h], Some h)
      | Inr (r, h) \<Rightarrow> ([], Some h)
      | Inl e \<Rightarrow> ([], None))"
    by (rule detect_column_rules)
next
  assume a: "file_size env p = Some n \<and> 0 < n \<and> try_read env p = (log, Inr table)
        \<and> selectTargetColumn table = Inl e"
  then show e: "e = ColumnNotDetected (map (\<lambda>c. strip (fst c)) table)"
    by (auto simp: selectTargetColumn_def Let_def strip_columns_def comp_def split: option.splits)
  then show "exn_class e = ''KeyError''" by simp
  from a have "detect_column (strip_columns table) = ([], None)"
    by (simp add: detect_column_rules)
  with a e show "load_data env (Some p) = (PrintUsing p n # log, Inl e)"
    by (simp add: load_data_def os_path_exists_def os_path_getsize_def Let_def strip_columns_def comp_def)
next
  assume a: "rule_alias (map (\<lambda>c. strip (fst c)) table) = None
        \<and> ''PM2.5 (ug/m3)'' \<in> set (map (\<lambda>c. strip (fst c)) table)"
  have "rule_substring (map (\<lambda>c. strip (fst c)) table) \<noteq> None"
    using a rule_substring_None pm25_header_looks by blast
  then obtain h where h: "rule_substring (map (\<lambda>c. strip (fst c)) table) = Some h" by auto
  with a have "selectTargetColumn table = Inr (SubstringRule, h)"
    by (simp add: selectTargetColumn_def Let_def strip_columns_def comp_def)
  with rule_substring_looks [OF h] show "\<exists>h. selectTargetColumn table = Inr (SubstringRule, h) \<and> looks_like_pm25 h"
    by blast
next
  have "rule_substring [''PM2.5 (ug/m3)''] = Some ''PM2.5 (ug/m3)''"
    by (simp add: rule_substring_def pm25_header_looks)
  then show "selectTargetColumn [(''PM2.5 (ug/m3)'', col)] = Inr (SubstringRule, ''PM2.5 (ug/m3)'')"
    by (simp add: selectTargetColumn_def Let_def strip_columns_def pm25_header_strip pm25_header_no_alias)
qed

lemmas select_simps = selectTargetColumn_def Let_def strip_columns_def strip_def is_space_def
  rule_alias_def last_with_lower_def candidates_def lower_def lower_char_def char_of_eq_iff
  rule_substring_def looks_like_pm25_def startswith_def remove_char_def rule_single_numeric_def
  numeric_cols_of_def getitem_def rule_generic_def

lemmas try_read_simps = try_read_def attempts_def shape1_def nrows_def lenient_attempt_def
  skip_kwargs_def quote_none_kwargs_def last_resort_def read_sample_def

theorem column_resolution_order_witness:
  "(detect_column (strip_columns [(''Time'', Column False [''a'']), ('' PM2_5 '', Column False [''12''])])
     = ([], Some ''PM2_5'')
   \<and> detect_column (strip_columns [(''PM2.5 (ug/m3)'', Column False [''12''])])
     = ([], Some ''PM2.5 (ug/m3)'')
   \<and> detect_column (strip_columns [(''time'', Column False [''a'']), (''conc'', Column True [''12''])])
     = ([PrintWarnSingleNumeric ''conc''], Some ''conc'')
   \<and> detect_column (strip_columns [(''time'', Column False [''a'']), (''Value'', Column False [''12''])])
     = ([], Some ''Value'')
   \<and> load_data (example_env [(''/d/x.csv'', 9)] [] []
         (parses_as [(''a'', Column False [''x'']), (''b'', Column False [''y''])])) (Some ''/d/x.csv'')
     = ([PrintUsing ''/d/x.csv'' 9, ReadCsv (Path ''/d/x.csv'') [Encoding ''utf-8''],
         PrintSuccess ''utf-8 (default engine)'' 2 1],
        Inl (ColumnNotDetected [''a'', ''b''])))
   \<and> (\<exists>h. selectTargetColumn [(''Time'', Column False [''a'']), (''PM2.5 (ug/m3)'', Column True [''12''])]
            = Inr (SubstringRule, h) \<and> looks_like_pm25 h)"
proof (rule conjI)
  show "detect_column (strip_columns [(''Time'', Column False [''a'']), ('' PM2_5 '', Column False [''12''])])
     = ([], Some ''PM2_5'')
   \<and> detect_column (strip_columns [(''PM2.5 (ug/m3)'', Column False [''12''])])
     = ([], Some ''PM2.5 (ug/m3)'')
   \<and> detect_column (strip_columns [(''time'', Column False [''a'']), (''conc'', Column True [''12''])])
     = ([PrintWarnSingleNumeric ''conc''], Some ''conc'')
   \<and> detect_column (strip_columns [(''time'', Column False [''a'']), (''Value'', Column False [''12''])])
     = ([], Some ''Value'')
   \<and> load_data (example_env [(''/d/x.csv'', 9)] [] []
         (parses_as [(''a'', Column False [''x'']), (''b'', Column False [''y''])])) (Some ''/d/x.csv'')
     = ([PrintUsing ''/d/x.csv'' 9, ReadCsv (Path ''/d/x.csv'') [Encoding ''utf-8''],
         PrintSuccess ''utf-8 (default engine)'' 2 1],
        Inl (ColumnNotDetected [''a'', ''b'']))"
    proof (intro conjI)
      show "detect_column (strip_columns [(''Time'', Column False [''a'']), ('' PM2_5 '', Column False [''12''])])
         = ([], Some ''PM2_5'')"
        using column_resolution_order [where table = "[(''Time'', Column False [''a'']), ('' PM2_5 '', Column False [''12''])]", THEN conjunct1]
        by (simp add: select_simps)
      show "detect_column (strip_columns [(''PM2.5 (ug/m3)'', Column False [''12''])])
         = ([], Some ''PM2.5 (ug/m3)'')"
        using column_resolution_order [where table = "[(''PM2.5 (ug/m3)'', Column False [''12''])]"
            and col = "Column False [''12'']", THEN conjunct1]
          column_resolution_order [where table = "[(''PM2.5 (ug/m3)'', Column False [''12''])]"
            and col = "Column False [''12'']", THEN conjunct2, THEN conjunct2, THEN conjunct2]
        by simp
      show "detect_column (strip_columns [(''time'', Column False [''a'']), (''conc'', Column True [''12''])])
         = ([PrintWarnSingleNumeric ''conc''], Some ''conc'')"
        using column_resolution_order [where table = "[(''time'', Column False [''a'']), (''conc'', Column True [''12''])]", THEN conjunct1]
        by (simp add: select_simps)
      show "detect_column (strip_columns [(''time'', Column False [''a'']), (''Value'', Column False [''12''])])
         = ([], Some ''Value'')"
        using column_resolution_order [where table = "[(''time'', Column False [''a'']), (''Value'', Column False [''12''])]", THEN conjunct1]
        by (simp add: select_simps)
      let ?T = "[(''a'', Column False [''x'']), (''b'', Column False [''y''])]"
      let ?E = "example_env [(''/d/x.csv'', 9)] [] [] (parses_as ?T)"
      have sz: "file_size ?E ''/d/x.csv'' = Some 9" by (simp add: example_env_def)
      have tr: "try_read ?E ''/d/x.csv'' = ([ReadCsv (Path ''/d/x.csv'') [Encoding ''utf-8''],
             PrintSuccess ''utf-8 (default engine)'' 2 1], Inr ?T)"
        by (simp add: try_read_simps example_env_def parses_as_def)
      have sel: "selectTargetColumn ?T = Inl (ColumnNotDetected [''a'', ''b''])"
        by (simp add: select_simps)
      from column_resolution_order [where table = ?T and env = ?E and p = "''/d/x.csv''" and n = 9
          and log = "[ReadCsv (Path ''/d/x.csv'') [Encoding ''utf-8''], PrintSuccess ''utf-8 (default engine)'' 2 1]"
          and e = "ColumnNotDetected [''a'', ''b'']", THEN conjunct2, THEN conjunct1] sz tr sel
      show "load_data ?E (Some ''/d/x.csv'')
         = ([PrintUsing ''/d/x.csv'' 9, ReadCsv (Path ''/d/x.csv'') [Encoding ''utf-8''],
             PrintSuccess ''utf-8 (default engine)'' 2 1],
            Inl (ColumnNotDetected [''a'', ''b'']))"
        by simp
    qed
  show "\<exists>h. selectTargetColumn [(''Time'', Column False [''a'']), (''PM2.5 (ug/m3)'', Column True [''12''])]
            = Inr (SubstringRule, h) \<and> looks_like_pm25 h"
    proof -
      let ?T = "[(''Time'', Column False [''a'']), (''PM2.5 (ug/m3)'', Column True [''12''])]"
      have "rule_alias (map (\<lambda>c. strip (fst c)) ?T) = None
            \<and> ''PM2.5 (ug/m3)'' \<in> set (map (\<lambda>c. strip (fst c)) ?T)"
        by (simp add: select_simps)
      with column_resolution_order [where table = ?T, THEN conjunct2, THEN conjunct2, THEN conjunct1]
      show ?thesis by blast
    qed
qed

section \<open>Properties of the numeric coercion\<close>

lemma dropna_conv: "map Some (dropna xs) = filter (\<lambda>v. v \<noteq> None) xs"
  by (induction xs) (auto simp: dropna_def List.map_filter_simps split: option.splits)

lemma dropna_all_None: "list_all (\<lambda>v. v = None) xs \<Longrightarrow> dropna xs = []"
  by (induction xs) (auto simp: dropna_def List.map_filter_simps)

lemma coerce_series_Inr:
  assumes "coerce_series env df c = Inr arr"
  shows "arr \<noteq> [] \<and> (\<exists>col. getitem df c = Inr (Series col)
           \<and> map Some (concat arr) = filter (\<lambda>v. v \<noteq> None) (map (to_numeric env) (cells col))
           \<and> list_all (\<lambda>row. length row = 1) arr)"
proof -
  from assms obtain col where col: "getitem df c = Inr (Series col)"
    and ne: "dropna (map (to_numeric env) (cells col)) \<noteq> []"
    and arr: "arr = map (\<lambda>v. [v]) (dropna (map (to_numeric env) (cells col)))"
    by (auto simp: coerce_series_def Let_def split: sum.splits selection.splits if_splits)
  have "concat arr = dropna (map (to_numeric env) (cells col))"
    unfolding arr by (induction "dropna (map (to_numeric env) (cells col))") auto
  then have "map Some (concat arr) = filter (\<lambda>v. v \<noteq> None) (map (to_numeric env) (cells col))"
    by (simp add: dropna_conv)
  moreover have "list_all (\<lambda>row. length row = 1) arr" unfolding arr by (simp add: list_all_iff)
  moreover have "arr \<noteq> []" using ne arr by simp
  ultimately show ?thesis using col by blast
qed

lemma load_data_Inr:
  assumes "load_data env path_arg = (log, Inr arr)"
  shows "\<exists>df c. coerce_series env df c = Inr arr"
  using assms
  by (auto simp: load_data_def Let_def split: sum.splits option.splits if_splits prod.splits)

text \<open>
  C5. The last stage of \<open>load_data\<close> takes the detected column, coerces its cells one by
  one and drops those that fail: the values returned are exactly the successful
  coercions, in order, one per row, with nothing put in place of a dropped cell. When no
  cell coerces it raises the ValueError for an empty series; so an array that
  \<open>load_data\<close> returns is never empty, and a target column in which every cell fails
  to coerce gives that error.
\<close>

theorem numeric_series_never_empty:
  "(load_data env path_arg = (log, Inr arr) \<longrightarrow> arr \<noteq> [])
   \<and> (coerce_series env df c = Inr arr \<longrightarrow>
        arr \<noteq> [] \<and> (\<exists>col. getitem df c = Inr (Series col)
           \<and> map Some (concat arr) = filter (\<lambda>v. v \<noteq> None) (map (to_numeric env) (cells col))
           \<and> list_all (\<lambda>row. length row = 1) arr))
   \<and> (getitem df c = Inr (Series col) \<and> list_all (\<lambda>x. to_numeric env x = None) (cells col) \<longrightarrow>
        coerce_series env df c = Inl (NoNumericValues c) \<and> exn_class (NoNumericValues c) = ''ValueError'')
   \<and> (file_size env p = Some n \<and> 0 < n \<and> try_read env p = (log1, Inr table)
        \<and> detect_column (strip_columns table) = (log2, Some c)
        \<and> getitem (strip_columns table) c = Inr (Series col)
        \<and> list_all (\<lambda>x. to_numeric env x = None) (cells col) \<longrightarrow>
        load_data env (Some p) = (PrintUsing p n # log1 @ log2, Inl (NoNumericValues c)))"
proof (intro conjI impI)
  assume "load_data env path_arg = (log, Inr arr)"
  then obtain df' c' where "coerce_series env df' c' = Inr arr" using load_data_Inr by blast
  then show "arr \<noteq> []" using coerce_series_Inr by blast
next
  assume a: "coerce_series env df c = Inr arr"
  from coerce_series_Inr [OF a] show "arr \<noteq> []" by blast
  from coerce_series_Inr [OF a] show "\<exists>col. getitem df c = Inr (Series col)
           \<and> map Some (concat arr) = filter (\<lambda>v. v \<noteq> None) (map (to_numeric env) (cells col))
           \<and> list_all (\<lambda>row. length row = 1) arr" by blast
next
  assume "getitem df c = Inr (Series col) \<and> list_all (\<lambda>x. to_numeric env x = None) (cells col)"
  then show "coerce_series env df c = Inl (NoNumericValues c)"
    by (simp add: coerce_series_def Let_def dropna_all_None list_all_iff)
next
  show "exn_class (NoNumericValues c) = ''ValueError''" by simp
next
  assume a: "file_size env p = Some n \<and> 0 < n \<and> try_read env p = (log1, Inr table)
        \<and> detect_column (strip_columns table) = (log2, Some c)
        \<and> getitem (strip_columns table) c = Inr (Series col)
        \<and> list_all (\<lambda>x. to_numeric env x = None) (cells col)"
  then have "coerce_series env (strip_columns table) c = Inl (NoNumericValues c)"
    by (simp add: coerce_series_def Let_def dropna_all_None list_all_iff)
  with a show "load_data env (Some p) = (PrintUsing p n # log1 @ log2, Inl (NoNumericValues c))"
    by (simp add: load_data_def os_path_exists_def os_path_getsize_def Let_def)
qed

lemmas detect_simps = detect_column_def Let_def strip_columns_def strip_def is_space_def
  col_map_of_def candidates_def lower_def lower_char_def char_of_eq_iff
  looks_like_pm25_def startswith_def remove_char_def numeric_cols_of_def getitem_def

lemmas load_simps = load_data_def os_path_exists_def os_path_getsize_def coerce_series_def dropna_def
  List.map_filter_simps

theorem numeric_series_never_empty_witness:
  "(load_data (example_env [(''/d/x.csv'', 40)] [] [] (parses_as mixed_table)) (Some ''/d/x.csv'')
     = ([PrintUsing ''/d/x.csv'' 40, ReadCsv (Path ''/d/x.csv'') [Encoding ''utf-8''],
         PrintSuccess ''utf-8 (default engine)'' 2 3, PrintLoaded 2 ''pm2_5''],
        Inr [[12], [7]])
   \<and> [[12], [7 :: nat]] \<noteq> []
   \<and> load_data (example_env [(''/d/x.csv'', 40)] [] [] (parses_as na_table)) (Some ''/d/x.csv'')
     = ([PrintUsing ''/d/x.csv'' 40, ReadCsv (Path ''/d/x.csv'') [Encoding ''utf-8''],
         PrintSuccess ''utf-8 (default engine)'' 2 2],
        Inl (NoNumericValues ''pm2_5'')))
   \<and> (coerce_series (example_env [] [] [] never_parses) mixed_table ''pm2_5'' = Inr [[12], [7]]
   \<and> map Some (concat [[12], [7 :: nat]])
       = filter (\<lambda>v. v \<noteq> None) (map (to_numeric (example_env [] [] [] never_parses)) [''12'', ''N/A'', ''7''])
   \<and> coerce_series (example_env [] [] [] never_parses) na_table ''pm2_5'' = Inl (NoNumericValues ''pm2_5''))"
proof (rule conjI)
  show "load_data (example_env [(''/d/x.csv'', 40)] [] [] (parses_as mixed_table)) (Some ''/d/x.csv'')
     = ([PrintUsing ''/d/x.csv'' 40, ReadCsv (Path ''/d/x.csv'') [Encoding ''utf-8''],
         PrintSuccess ''utf-8 (default engine)'' 2 3, PrintLoaded 2 ''pm2_5''],
        Inr [[12], [7]])
   \<and> [[12], [7 :: nat]] \<noteq> []
   \<and> load_data (example_env [(''/d/x.csv'', 40)] [] [] (parses_as na_table)) (Some ''/d/x.csv'')
     = ([PrintUsing ''/d/x.csv'' 40, ReadCsv (Path ''/d/x.csv'') [Encoding ''utf-8''],
         PrintSuccess ''utf-8 (default engine)'' 2 2],
        Inl (NoNumericValues ''pm2_5''))"
    proof (intro conjI)
      let ?E = "example_env [(''/d/x.csv'', 40)] [] [] (parses_as mixed_table)"
      show l: "load_data ?E (Some ''/d/x.csv'')
         = ([PrintUsing ''/d/x.csv'' 40, ReadCsv (Path ''/d/x.csv'') [Encoding ''utf-8''],
             PrintSuccess ''utf-8 (default engine)'' 2 3, PrintLoaded 2 ''pm2_5''],
            Inr [[12], [7]])"
        by (simp add: load_simps try_read_simps detect_simps example_env_def parses_as_def mixed_table_def)
      from numeric_series_never_empty [where env = ?E and path_arg = "Some ''/d/x.csv''"
          and arr = "[[12], [7]]", THEN conjunct1] l
      show "[[12], [7 :: nat]] \<noteq> []" by blast
    next
      let ?E = "example_env [(''/d/x.csv'', 40)] [] [] (parses_as na_table)"
      have sz: "file_size ?E ''/d/x.csv'' = Some 40" by (simp add: example_env_def)
      have tr: "try_read ?E ''/d/x.csv'' = ([ReadCsv (Path ''/d/x.csv'') [Encoding ''utf-8''],
             PrintSuccess ''utf-8 (default engine)'' 2 2], Inr na_table)"
        by (simp add: try_read_simps example_env_def parses_as_def na_table_def)
      have dc: "detect_column (strip_columns na_table) = ([], Some ''pm2_5'')"
        by (simp add: detect_simps na_table_def)
      have gi: "getitem (strip_columns na_table) ''pm2_5'' = Inr (Series (Column False [''N/A'', ''N/A'']))"
        by (simp add: detect_simps na_table_def)
      have na: "list_all (\<lambda>x. to_numeric ?E x = None) (cells (Column False [''N/A'', ''N/A'']))"
        by (simp add: example_env_def)
      from numeric_series_never_empty [where env = ?E and p = "''/d/x.csv''" and n = 40 and table = na_table
          and c = "''pm2_5''" and col = "Column False [''N/A'', ''N/A'']" and ?log2.0 = "[]"
          and ?log1.0 = "[ReadCsv (Path ''/d/x.csv'') [Encoding ''utf-8''], PrintSuccess ''utf-8 (default engine)'' 2 2]",
          THEN conjunct2, THEN conjunct2, THEN conjunct2] sz tr dc gi na
      show "load_data ?E (Some ''/d/x.csv'')
         = ([PrintUsing ''/d/x.csv'' 40, ReadCsv (Path ''/d/x.csv'') [Encoding ''utf-8''],
             PrintSuccess ''utf-8 (default engine)'' 2 2],
            Inl (NoNumericValues ''pm2_5''))"
        by simp
    qed
  show "coerce_series (example_env [] [] [] never_parses) mixed_table ''pm2_5'' = Inr [[12], [7]]
   \<and> map Some (concat [[12], [7 :: nat]])
       = filter (\<lambda>v. v \<noteq> None) (map (to_numeric (example_env [] [] [] never_parses)) [''12'', ''N/A'', ''7''])
   \<and> coerce_series (example_env [] [] [] never_parses) na_table ''pm2_5'' = Inl (NoNumericValues ''pm2_5'')"
    proof -
      let ?E = "example_env [] [] [] never_parses"
      have c: "coerce_series ?E mixed_table ''pm2_5'' = Inr [[12], [7]]"
        by (simp add: coerce_series_def dropna_def List.map_filter_simps getitem_def mixed_table_def example_env_def)
      have g: "getitem mixed_table ''pm2_5'' = Inr (Series (Column False [''12'', ''N/A'', ''7'']))"
        by (simp add: getitem_def mixed_table_def)
      from numeric_series_never_empty [where env = ?E and df = mixed_table and c = "''pm2_5''"
          and arr = "[[12], [7]]", THEN conjunct2, THEN conjunct1] c g
      have 1: "map Some (concat [[12], [7 :: nat]])
           = filter (\<lambda>v. v \<noteq> None) (map (to_numeric ?E) [''12'', ''N/A'', ''7''])"
        by auto
      have g2: "getitem na_table ''pm2_5'' = Inr (Series (Column False [''N/A'', ''N/A'']))"
        by (simp add: getitem_def na_table_def)
      have na: "list_all (\<lambda>x. to_numeric ?E x = None) (cells (Column False [''N/A'', ''N/A'']))"
        by (simp add: example_env_def)
      from numeric_series_never_empty [where env = ?E and df = na_table and c = "''pm2_5''"
          and col = "Column False [''N/A'', ''N/A'']", THEN conjunct2, THEN conjunct2, THEN conjunct1] g2 na
      have 2: "coerce_series ?E na_table ''pm2_5'' = Inl (NoNumericValues ''pm2_5'')" by blast
      from c 1 2 show ?thesis by blast
    qed
qed

section \<open>A column named pm2_5\<close>

lemma last_with_lower_Some:
  "last_with_lower hs k = Some h \<Longrightarrow> lower h = k \<and> h \<in> set hs"
proof -
  assume a: "last_with_lower hs k = Some h"
  then have ne: "filter (\<lambda>h. lower h = k) hs \<noteq> []" and h: "h = last (filter (\<lambda>h. lower h = k) hs)"
    by (auto simp: last_with_lower_def Let_def split: if_splits)
  from last_in_set [OF ne] h have "h \<in> set (filter (\<lambda>h. lower h = k) hs)" by simp
  then show ?thesis by simp
qed

lemma last_with_lower_None:
  "last_with_lower hs k = None \<longleftrightarrow> (\<forall>h\<in>set hs. lower h \<noteq> k)"
  by (auto simp: last_with_lower_def Let_def filter_empty_conv)

lemma lower_pm2_5: "lower ''pm2_5'' = ''pm2_5''" "lower ''pm25'' = ''pm25''" "lower ''pm_25'' = ''pm_25''"
  by (simp_all add: lower_def lower_char_def)

lemma strip_pm2_5: "strip ''pm2_5'' = ''pm2_5''"
  by (simp add: strip_def is_space_def)

lemma rule_alias_pm2_5:
  assumes "''pm2_5'' \<in> set hs"
  shows "\<exists>h. rule_alias hs = Some h \<and> h \<in> set hs \<and> lower h \<in> {''pm25'', ''pm_25'', ''pm2_5''}
           \<and> (last_with_lower hs ''pm25'' = None \<and> last_with_lower hs ''pm_25'' = None
                \<longrightarrow> Some h = last_with_lower hs ''pm2_5'')"
proof -
  from assms have "last_with_lower hs ''pm2_5'' \<noteq> None"
    using lower_pm2_5(1) by (auto simp: last_with_lower_None)
  then obtain h3 where h3: "last_with_lower hs ''pm2_5'' = Some h3" by auto
  show ?thesis
  proof (cases "last_with_lower hs ''pm25''")
    case (Some h1)
    then have "rule_alias hs = Some h1"
      by (simp add: rule_alias_def candidates_def lower_pm2_5)
    with last_with_lower_Some [OF Some] Some show ?thesis by simp
  next
    case n1: None
    show ?thesis
    proof (cases "last_with_lower hs ''pm_25''")
      case (Some h2)
      with n1 have "rule_alias hs = Some h2"
        by (simp add: rule_alias_def candidates_def lower_pm2_5)
      with last_with_lower_Some [OF Some] Some show ?thesis by simp
    next
      case None
      with n1 h3 have "rule_alias hs = Some h3"
        by (simp add: rule_alias_def candidates_def lower_pm2_5)
      with last_with_lower_Some [OF h3] h3 show ?thesis by simp
    qed
  qed
qed

lemma last_with_lower_unique:
  assumes "k \<in> set hs" "lower k = k" "\<forall>h\<in>set hs. lower h = k \<longrightarrow> h = k"
  shows "last_with_lower hs k = Some k"
proof -
  from assms(1,2) have "last_with_lower hs k \<noteq> None" by (auto simp: last_with_lower_None)
  then obtain h where h: "last_with_lower hs k = Some h" by auto
  from last_with_lower_Some [OF h] assms(3) have "h = k" by blast
  with h show ?thesis by simp
qed

text \<open>
  C8, as amended. When the first strategy (UTF-8, default engine) parses the file into a
  table that has a column named exactly \<open>pm2_5\<close>, \<open>_try_read\<close> returns that table after
  this one read and no other; column resolution then selects by the alias rule a column
  whose lowercased name is \<open>pm25\<close>, \<open>pm_25\<close> or \<open>pm2_5\<close>; it is the column \<open>pm2_5\<close>
  itself when no trimmed header lowercases to \<open>pm25\<close> or \<open>pm_25\<close> and no other header
  lowercases to \<open>pm2_5\<close>.
\<close>

theorem exact_pm2_5_first_strategy:
  "read_csv env (Path p) [Encoding ''utf-8''] = Inr table \<and> ''pm2_5'' \<in> set (map fst table) \<longrightarrow>
     try_read env p
       = ([ReadCsv (Path p) [Encoding ''utf-8''],
           PrintSuccess ''utf-8 (default engine)'' (length table) (nrows table)], Inr table)
     \<and> (\<exists>h. selectTargetColumn table = Inr (AliasRule, h)
           \<and> detect_column (strip_columns table) = ([], Some h)
           \<and> lower h \<in> {''pm25'', ''pm_25'', ''pm2_5''})
     \<and> ((\<forall>h\<in>set (map (\<lambda>c. strip (fst c)) table).
            lower h \<noteq> ''pm25'' \<and> lower h \<noteq> ''pm_25'' \<and> (lower h = ''pm2_5'' \<longrightarrow> h = ''pm2_5'')) \<longrightarrow>
         selectTargetColumn table = Inr (AliasRule, ''pm2_5'')
         \<and> detect_column (strip_columns table) = ([], Some ''pm2_5''))"
proof (intro impI)
  let ?hs = "map (\<lambda>c. strip (fst c)) table"
  assume a: "read_csv env (Path p) [Encoding ''utf-8''] = Inr table \<and> ''pm2_5'' \<in> set (map fst table)"
  then have ne: "table \<noteq> []" by auto
  have hs: "map fst (strip_columns table) = ?hs" by (simp add: strip_columns_def)
  from a have "strip ''pm2_5'' \<in> set ?hs" by force
  then have mem: "''pm2_5'' \<in> set ?hs" by (simp only: strip_pm2_5)
  from rule_alias_pm2_5 [OF mem] obtain h where h: "rule_alias ?hs = Some h"
    "lower h \<in> {''pm25'', ''pm_25'', ''pm2_5''}"
    "last_with_lower ?hs ''pm25'' = None \<and> last_with_lower ?hs ''pm_25'' = None
       \<longrightarrow> Some h = last_with_lower ?hs ''pm2_5''"
    by blast
  from h(1) have sel: "selectTargetColumn table = Inr (AliasRule, h)"
    by (simp add: selectTargetColumn_def Let_def hs)
  then have det: "detect_column (strip_columns table) = ([], Some h)"
    by (simp add: detect_column_rules)
  have tr: "try_read env p
       = ([ReadCsv (Path p) [Encoding ''utf-8''],
           PrintSuccess ''utf-8 (default engine)'' (length table) (nrows table)], Inr table)"
    using a ne by (simp add: try_read_def attempts_def shape1_def)
  have uniq: "selectTargetColumn table = Inr (AliasRule, ''pm2_5'')
         \<and> detect_column (strip_columns table) = ([], Some ''pm2_5'')"
    if u: "\<forall>h\<in>set ?hs. lower h \<noteq> ''pm25'' \<and> lower h \<noteq> ''pm_25'' \<and> (lower h = ''pm2_5'' \<longrightarrow> h = ''pm2_5'')"
  proof -
    from u have "last_with_lower ?hs ''pm25'' = None" "last_with_lower ?hs ''pm_25'' = None"
      by (auto simp: last_with_lower_None)
    moreover from u have "last_with_lower ?hs ''pm2_5'' = Some ''pm2_5''"
      using last_with_lower_unique [OF mem lower_pm2_5(1)] by blast
    ultimately have "h = ''pm2_5''" using h(3) by simp
    with sel det show ?thesis by simp
  qed
  from tr sel det h(2) uniq
  show "try_read env p
       = ([ReadCsv (Path p) [Encoding ''utf-8''],
           PrintSuccess ''utf-8 (default engine)'' (length table) (nrows table)], Inr table)
     \<and> (\<exists>h. selectTargetColumn table = Inr (AliasRule, h)
           \<and> detect_column (strip_columns table) = ([], Some h)
           \<and> lower h \<in> {''pm25'', ''pm_25'', ''pm2_5''})
     \<and> ((\<forall>h\<in>set (map (\<lambda>c. strip (fst c)) table).
            lower h \<noteq> ''pm25'' \<and> lower h \<noteq> ''pm_25'' \<and> (lower h = ''pm2_5'' \<longrightarrow> h = ''pm2_5'')) \<longrightarrow>
         selectTargetColumn table = Inr (AliasRule, ''pm2_5'')
         \<and> detect_column (strip_columns table) = ([], Some ''pm2_5''))"
    by blast
qed

text \<open>
  C8 as stated fails: a file with the columns \<open>pm25\<close> and \<open>pm2_5\<close> is parsed by the
  first strategy, and the column selected is \<open>pm25\<close>, the earlier alias.
\<close>

theorem exact_pm2_5_counterexample:
  "try_read two_pm_env ''/d/two.csv''
     = ([ReadCsv (Path ''/d/two.csv'') [Encoding ''utf-8''],
         PrintSuccess ''utf-8 (default engine)'' 3 1], Inr two_pm_table)
   \<and> ''pm2_5'' \<in> set (map fst two_pm_table)
   \<and> detect_column (strip_columns two_pm_table) = ([], Some ''pm25'')
   \<and> snd (load_data two_pm_env (Some ''/d/two.csv'')) = Inr [[30]]
   \<and> PrintLoaded 1 ''pm25'' \<in> set (fst (load_data two_pm_env (Some ''/d/two.csv'')))"
  by (simp add: load_simps try_read_simps detect_simps two_pm_env_def example_env_def parses_as_def
      two_pm_table_def)

theorem exact_pm2_5_first_strategy_witness:
  "try_read (example_env [(''/d/x.csv'', 40)] [] [] (parses_as mixed_table)) ''/d/x.csv''
     = ([ReadCsv (Path ''/d/x.csv'') [Encoding ''utf-8''],
         PrintSuccess ''utf-8 (default engine)'' 2 3], Inr mixed_table)
   \<and> selectTargetColumn mixed_table = Inr (AliasRule, ''pm2_5'')
   \<and> detect_column (strip_columns mixed_table) = ([], Some ''pm2_5'')"
proof -
  let ?E = "example_env [(''/d/x.csv'', 40)] [] [] (parses_as mixed_table)"
  have r: "read_csv ?E (Path ''/d/x.csv'') [Encoding ''utf-8''] = Inr mixed_table
      \<and> ''pm2_5'' \<in> set (map fst mixed_table)"
    by (simp add: example_env_def parses_as_def mixed_table_def)
  have u: "\<forall>h\<in>set (map (\<lambda>c. strip (fst c)) mixed_table).
            lower h \<noteq> ''pm25'' \<and> lower h \<noteq> ''pm_25'' \<and> (lower h = ''pm2_5'' \<longrightarrow> h = ''pm2_5'')"
    by (simp add: mixed_table_def strip_def is_space_def lower_def lower_char_def char_of_eq_iff)
  have n: "length mixed_table = 2" "nrows mixed_table = 3" by (simp_all add: mixed_table_def nrows_def)
  from exact_pm2_5_first_strategy [of ?E "''/d/x.csv''" mixed_table] r u n
  show ?thesis by simp
qed

section \<open>Properties of _try_read\<close>

lemma attempt_loop_yield:
  assumes "yields env p (fst a)"
  shows "\<exists>df. read_csv env (Path p) (fst a) = Inr df \<and> 0 < shape1 df
          \<and> attempt_loop env p (a # rest) l
              = ([ReadCsv (Path p) (fst a), PrintSuccess (snd a) (length df) (nrows df)], Returned df)"
  using assms by (auto simp: yields_def split: sum.splits)

lemma attempt_loop_fail:
  assumes "\<not> yields env p (fst a)"
  shows "attempt_loop env p (a # rest) l
           = and_then ([ReadCsv (Path p) (fst a)], Continue (Some (attempt_exc env p a)))
               (attempt_loop env p rest)"
  using assms by (auto simp: yields_def attempt_exc_def split: sum.splits)

lemma lenient_attempt_yield:
  assumes "yields env p kw"
  shows "\<exists>df. read_csv env (Path p) kw = Inr df \<and> 0 < shape1 df
          \<and> lenient_attempt env p kw msg l = ([ReadCsv (Path p) kw, msg], Returned df)"
  using assms by (auto simp: yields_def lenient_attempt_def split: sum.splits)

lemma lenient_attempt_fail:
  assumes "\<not> yields env p kw"
  shows "lenient_attempt env p kw msg l = ([ReadCsv (Path p) kw], Continue (lenient_exc env p kw l))"
  using assms by (auto simp: yields_def lenient_attempt_def lenient_exc_def split: sum.splits)

lemma strategy_kwargs_eq:
  "strategy_kwargs =
     [[Encoding ''utf-8''], [Encoding ''utf-8-sig''], [Encoding ''latin1''],
      [Engine ''python'', SepNone],
      [Engine ''python'', SepNone, OnBadLines ''skip'', Encoding ''utf-8''],
      [Engine ''python'', SepNone, Quotechar (CHR 0x22), QuotingNone, Encoding ''latin1'',
       OnBadLines ''skip'']]"
  by (simp add: strategy_kwargs_def attempts_def skip_kwargs_def quote_none_kwargs_def)

lemma try_read_result_of:
  "try_read env p =
     result_of
       (and_then
          (and_then
             (and_then (attempt_loop env p attempts None)
                (lenient_attempt env p skip_kwargs PrintSkipSucceeded))
             (lenient_attempt env p quote_none_kwargs PrintQuoteNoneSucceeded))
          (last_resort env p)) p"
  by (simp add: try_read_def result_of_def split: prod.splits outcome.splits)

lemma six_fail:
  assumes "list_all (\<lambda>kw. \<not> yields env p kw) strategy_kwargs"
  shows "and_then
          (and_then (attempt_loop env p attempts None)
             (lenient_attempt env p skip_kwargs PrintSkipSucceeded))
          (lenient_attempt env p quote_none_kwargs PrintQuoteNoneSucceeded)
         = (map (ReadCsv (Path p)) strategy_kwargs, Continue (exc_before_modal env p))"
proof -
  from assms have f: "\<not> yields env p [Encoding ''utf-8'']" "\<not> yields env p [Encoding ''utf-8-sig'']"
    "\<not> yields env p [Encoding ''latin1'']" "\<not> yields env p [Engine ''python'', SepNone]"
    "\<not> yields env p skip_kwargs" "\<not> yields env p quote_none_kwargs"
    by (simp_all add: strategy_kwargs_def attempts_def)
  have "attempt_loop env p attempts None
      = (map (ReadCsv (Path p)) (map fst attempts), Continue (Some (attempt_exc env p (last attempts))))"
    using f(1-4) by (simp add: attempts_def attempt_loop_fail del: attempt_loop.simps(2))
  then show ?thesis
    using f(5,6)
    by (simp add: lenient_attempt_fail strategy_kwargs_def exc_before_modal_def)
qed

lemma try_read_six_fail:
  assumes "list_all (\<lambda>kw. \<not> yields env p kw) strategy_kwargs"
  shows "try_read env p =
     result_of (and_then (map (ReadCsv (Path p)) strategy_kwargs, Continue (exc_before_modal env p))
                  (last_resort env p)) p"
  by (simp only: try_read_result_of six_fail [OF assms])

lemma path_reads_simps [simp]:
  "path_reads [] = []"
  "path_reads (ReadCsv (Path q) kw # log) = (q, kw) # path_reads log"
  "path_reads (ReadCsv (StringIO t) kw # log) = path_reads log"
  "path_reads (PrintSuccess a b c # log) = path_reads log"
  "path_reads (PrintSkipSucceeded # log) = path_reads log"
  "path_reads (PrintQuoteNoneSucceeded # log) = path_reads log"
  "path_reads (PrintModalAttempt # log) = path_reads log"
  "path_reads (PrintModalKept k1 k2 ch m # log) = path_reads log"
  "path_reads (log1 @ log2) = path_reads log1 @ path_reads log2"
  by (simp_all add: path_reads_def)

lemma path_reads_map [simp]: "path_reads (map (ReadCsv (Path q)) ks) = map (Pair q) ks"
  by (induction ks) simp_all

lemma memory_reads_simps [simp]:
  "memory_reads [] = []"
  "memory_reads (ReadCsv (Path q) kw # log) = memory_reads log"
  "memory_reads (ReadCsv (StringIO t) kw # log) = (t, kw) # memory_reads log"
  "memory_reads (PrintSuccess a b c # log) = memory_reads log"
  "memory_reads (PrintSkipSucceeded # log) = memory_reads log"
  "memory_reads (PrintQuoteNoneSucceeded # log) = memory_reads log"
  "memory_reads (PrintModalAttempt # log) = memory_reads log"
  "memory_reads (PrintModalKept k1 k2 ch m # log) = memory_reads log"
  "memory_reads (log1 @ log2) = memory_reads log1 @ memory_reads log2"
  by (simp_all add: memory_reads_def)

lemma memory_reads_map [simp]: "memory_reads (map (ReadCsv (Path q)) ks) = []"
  by (induction ks) simp_all

lemma modal_clean_log:
  "\<exists>log r. modal_clean env p ls l = (log, r) \<and> path_reads log = []
      \<and> PrintModalAttempt \<notin> set log \<and> (\<forall>df. r = Returned df \<longrightarrow> 0 < shape1 df)"
  by (auto simp: modal_clean_def Let_def split: sum.splits prod.splits)

lemma last_resort_log:
  "\<exists>log r. last_resort env p l = (PrintModalAttempt # log, r) \<and> path_reads log = []
      \<and> (\<forall>df. r = Returned df \<longrightarrow> 0 < shape1 df)"
proof (cases "read_sample env p")
  case Unbound
  then show ?thesis by (simp add: last_resort_def)
next
  case (Bound s)
  show ?thesis
  proof (cases s)
    case None
    with Bound show ?thesis by (simp add: last_resort_def)
  next
    case (Some ls)
    from modal_clean_log [of env p ls l] obtain log r where
      m: "modal_clean env p ls l = (log, r)" "path_reads log = []"
         "\<forall>df. r = Returned df \<longrightarrow> 0 < shape1 df"
      by blast
    with Bound Some show ?thesis
      by (cases r) (simp_all add: last_resort_def)
  qed
qed

lemma try_read_first_yield:
  assumes i: "i < 6"
    and f: "list_all (\<lambda>kw. \<not> yields env p kw) (take i strategy_kwargs)"
    and y: "yields env p (strategy_kwargs ! i)"
  shows "\<exists>df msg. read_csv env (Path p) (strategy_kwargs ! i) = Inr df \<and> 0 < shape1 df
           \<and> try_read env p = (map (ReadCsv (Path p)) (take (Suc i) strategy_kwargs) @ [msg], Inr df)
           \<and> path_reads [msg] = [] \<and> memory_reads [msg] = [] \<and> msg \<noteq> PrintModalAttempt"
proof -
  from i have "i = 0 \<or> i = 1 \<or> i = 2 \<or> i = 3 \<or> i = 4 \<or> i = 5" by arith
  then consider (0) "i = 0" | (1) "i = 1" | (2) "i = 2" | (3) "i = 3" | (4) "i = 4" | (5) "i = 5"
    by blast
  then show ?thesis
  proof cases
    case 0
    with y have "yields env p (fst (hd attempts))"
      by (simp add: strategy_kwargs_eq attempts_def)
    from attempt_loop_yield [OF this, of "tl attempts" None] 0 show ?thesis
      by (auto simp: try_read_result_of result_of_def strategy_kwargs_eq attempts_def)
  next
    case 1
    with f y have a: "\<not> yields env p [Encoding ''utf-8'']" "yields env p (fst ([Encoding ''utf-8-sig''], ''utf-8-sig (BOM)''))"
      by (simp_all add: strategy_kwargs_eq)
    from attempt_loop_yield [OF a(2), of "drop 2 attempts" "Some (attempt_exc env p (attempts ! 0))"] a(1) 1
    show ?thesis
      by (auto simp: try_read_result_of result_of_def strategy_kwargs_eq attempts_def attempt_loop_fail
          simp del: attempt_loop.simps(2))
  next
    case 2
    with f y have a: "\<not> yields env p [Encoding ''utf-8'']" "\<not> yields env p [Encoding ''utf-8-sig'']"
      "yields env p (fst ([Encoding ''latin1''], ''latin1''))"
      by (simp_all add: strategy_kwargs_eq numeral_2_eq_2)
    from attempt_loop_yield [OF a(3), of "drop 3 attempts" "Some (attempt_exc env p (attempts ! 1))"] a(1,2) 2
    show ?thesis
      by (auto simp: try_read_result_of result_of_def strategy_kwargs_eq attempts_def attempt_loop_fail
          simp del: attempt_loop.simps(2))
  next
    case 3
    with f y have a: "\<not> yields env p [Encoding ''utf-8'']" "\<not> yields env p [Encoding ''utf-8-sig'']"
      "\<not> yields env p [Encoding ''latin1'']"
      "yields env p (fst ([Engine ''python'', SepNone], ''python engine, auto-sep''))"
      by (simp_all add: strategy_kwargs_eq numeral_3_eq_3)
    from attempt_loop_yield [OF a(4), of "[]" "Some (attempt_exc env p (attempts ! 2))"] a(1,2,3) 3
    show ?thesis
      by (auto simp: try_read_result_of result_of_def strategy_kwargs_eq attempts_def attempt_loop_fail
          simp del: attempt_loop.simps(2))
  next
    case 4
    with f y have a: "\<not> yields env p [Encoding ''utf-8'']" "\<not> yields env p [Encoding ''utf-8-sig'']"
      "\<not> yields env p [Encoding ''latin1'']" "\<not> yields env p [Engine ''python'', SepNone]"
      "yields env p skip_kwargs"
      by (simp_all add: strategy_kwargs_eq skip_kwargs_def eval_nat_numeral)
    have l: "attempt_loop env p attempts None
      = (map (ReadCsv (Path p)) (map fst attempts), Continue (Some (attempt_exc env p (last attempts))))"
      using a(1-4) by (simp add: attempts_def attempt_loop_fail del: attempt_loop.simps(2))
    from lenient_attempt_yield [OF a(5), of PrintSkipSucceeded "Some (attempt_exc env p (last attempts))"] 4 l
    show ?thesis
      by (auto simp: try_read_result_of result_of_def strategy_kwargs_def attempts_def)
  next
    case 5
    with f y have a: "\<not> yields env p [Encoding ''utf-8'']" "\<not> yields env p [Encoding ''utf-8-sig'']"
      "\<not> yields env p [Encoding ''latin1'']" "\<not> yields env p [Engine ''python'', SepNone]"
      "\<not> yields env p skip_kwargs" "yields env p quote_none_kwargs"
      by (simp_all add: strategy_kwargs_eq skip_kwargs_def quote_none_kwargs_def eval_nat_numeral)
    have l: "attempt_loop env p attempts None
      = (map (ReadCsv (Path p)) (map fst attempts), Continue (Some (attempt_exc env p (last attempts))))"
      using a(1-4) by (simp add: attempts_def attempt_loop_fail del: attempt_loop.simps(2))
    from lenient_attempt_yield [OF a(6), of PrintQuoteNoneSucceeded
        "lenient_exc env p skip_kwargs (Some (attempt_exc env p (last attempts)))"] 5 l a(5)
    show ?thesis
      by (auto simp: try_read_result_of result_of_def strategy_kwargs_def attempts_def lenient_attempt_fail)
  qed
qed

lemma takeWhile_cases:
  fixes P :: "'a \<Rightarrow> bool"
  obtains (all) "list_all P xs" "takeWhile P xs = xs"
  | (stop) i where "i < length xs" "list_all P (take i xs)" "\<not> P (xs ! i)" "takeWhile P xs = take i xs"
proof (cases "length (takeWhile P xs) < length xs")
  case True
  let ?i = "length (takeWhile P xs)"
  have t: "takeWhile P xs = take ?i xs" by (rule takeWhile_eq_take)
  have "list_all P (takeWhile P xs)" by (auto simp: list_all_iff dest: set_takeWhileD)
  with t have "list_all P (take ?i xs)" by simp
  moreover have "\<not> P (xs ! ?i)" using True by (rule nth_length_takeWhile)
  ultimately show ?thesis using True t stop by blast
next
  case False
  have "length (takeWhile P xs) \<le> length xs" by (rule length_takeWhile_le)
  with False have l: "length (takeWhile P xs) = length xs" by simp
  have "takeWhile P xs = take (length (takeWhile P xs)) xs" by (rule takeWhile_eq_take)
  with l have t: "takeWhile P xs = xs" by simp
  have "list_all P (takeWhile P xs)" by (auto simp: list_all_iff dest: set_takeWhileD)
  with t have "list_all P xs" by (simp only:)
  with t show ?thesis using all by blast
qed

lemma strategy_kwargs_length: "length strategy_kwargs = 6"
  by (simp add: strategy_kwargs_eq)

text \<open>
  C2. \<open>_try_read\<close> reads the file with the six keyword settings in the documented
  order (UTF-8; UTF-8 with BOM; Latin-1; python engine with sniffed separator; the same
  skipping bad lines; the same with quotes as literals, Latin-1, skipping bad lines) and
  turns to the modal-column-count reconstruction last. The reads made are exactly those
  up to and including the first that yields a table with a column; that table is the
  result and nothing later is attempted. The reconstruction is attempted exactly when
  none of the six reads yields, after all six, and every table returned has a column.
\<close>

theorem strategies_in_order:
  "strategy_kwargs =
     [[Encoding ''utf-8''], [Encoding ''utf-8-sig''], [Encoding ''latin1''],
      [Engine ''python'', SepNone],
      [Engine ''python'', SepNone, OnBadLines ''skip'', Encoding ''utf-8''],
      [Engine ''python'', SepNone, Quotechar (CHR 0x22), QuotingNone, Encoding ''latin1'',
       OnBadLines ''skip'']]
   \<and> path_reads (fst (try_read env p))
       = map (Pair p)
           (take (Suc (length (takeWhile (\<lambda>kw. \<not> yields env p kw) strategy_kwargs))) strategy_kwargs)
   \<and> (\<forall>i. i < 6 \<and> list_all (\<lambda>kw. \<not> yields env p kw) (take i strategy_kwargs)
            \<and> yields env p (strategy_kwargs ! i) \<longrightarrow>
          snd (try_read env p) = read_csv env (Path p) (strategy_kwargs ! i)
          \<and> path_reads (fst (try_read env p)) = map (Pair p) (take (Suc i) strategy_kwargs)
          \<and> memory_reads (fst (try_read env p)) = []
          \<and> PrintModalAttempt \<notin> set (fst (try_read env p)))
   \<and> (list_all (\<lambda>kw. \<not> yields env p kw) strategy_kwargs \<longrightarrow>
          (\<exists>log. fst (try_read env p) = map (ReadCsv (Path p)) strategy_kwargs @ PrintModalAttempt # log
             \<and> path_reads log = [])
          \<and> try_read env p =
              result_of (and_then (map (ReadCsv (Path p)) strategy_kwargs, Continue (exc_before_modal env p))
                  (last_resort env p)) p)
   \<and> (\<forall>df. snd (try_read env p) = Inr df \<longrightarrow> 0 < shape1 df)"
proof -
  let ?F = "\<lambda>kw. \<not> yields env p kw"
  have part3: "snd (try_read env p) = read_csv env (Path p) (strategy_kwargs ! i)
          \<and> path_reads (fst (try_read env p)) = map (Pair p) (take (Suc i) strategy_kwargs)
          \<and> memory_reads (fst (try_read env p)) = []
          \<and> PrintModalAttempt \<notin> set (fst (try_read env p))
          \<and> (\<forall>df. snd (try_read env p) = Inr df \<longrightarrow> 0 < shape1 df)"
    if "i < 6" "list_all ?F (take i strategy_kwargs)" "yields env p (strategy_kwargs ! i)" for i
  proof -
    from try_read_first_yield [OF that] obtain df msg where
      d: "read_csv env (Path p) (strategy_kwargs ! i) = Inr df" "0 < shape1 df"
         "try_read env p = (map (ReadCsv (Path p)) (take (Suc i) strategy_kwargs) @ [msg], Inr df)"
         "path_reads [msg] = []" "memory_reads [msg] = []" "msg \<noteq> PrintModalAttempt"
      by blast
    then show ?thesis by auto
  qed
  have part4: "(\<exists>log. fst (try_read env p) = map (ReadCsv (Path p)) strategy_kwargs @ PrintModalAttempt # log
             \<and> path_reads log = [])
          \<and> try_read env p =
              result_of (and_then (map (ReadCsv (Path p)) strategy_kwargs, Continue (exc_before_modal env p))
                  (last_resort env p)) p
          \<and> (\<forall>df. snd (try_read env p) = Inr df \<longrightarrow> 0 < shape1 df)"
    if a: "list_all ?F strategy_kwargs"
  proof -
    from last_resort_log [of env p "exc_before_modal env p"] obtain log r where
      l: "last_resort env p (exc_before_modal env p) = (PrintModalAttempt # log, r)"
         "path_reads log = []" "\<forall>df. r = Returned df \<longrightarrow> 0 < shape1 df"
      by blast
    have t: "try_read env p =
              result_of (and_then (map (ReadCsv (Path p)) strategy_kwargs, Continue (exc_before_modal env p))
                  (last_resort env p)) p"
      by (rule try_read_six_fail [OF a])
    with l show ?thesis by (cases r) (simp_all add: result_of_def)
  qed
  have part2: "path_reads (fst (try_read env p))
       = map (Pair p) (take (Suc (length (takeWhile ?F strategy_kwargs))) strategy_kwargs)"
    and part5: "\<forall>df. snd (try_read env p) = Inr df \<longrightarrow> 0 < shape1 df"
  proof -
    show "path_reads (fst (try_read env p))
       = map (Pair p) (take (Suc (length (takeWhile ?F strategy_kwargs))) strategy_kwargs)"
    proof (cases ?F strategy_kwargs rule: takeWhile_cases)
      case all
      from part4 [OF all(1)] obtain log where
        "fst (try_read env p) = map (ReadCsv (Path p)) strategy_kwargs @ PrintModalAttempt # log"
        "path_reads log = []" by blast
      moreover from all(2) have "length (takeWhile ?F strategy_kwargs) = 6"
        by (simp only: strategy_kwargs_length)
      ultimately show ?thesis by (simp add: strategy_kwargs_length)
    next
      case (stop i)
      then have "i < 6" "yields env p (strategy_kwargs ! i)" by (simp_all add: strategy_kwargs_length)
      from part3 [OF this(1) stop(2) this(2)] stop(1,4) show ?thesis
        by (simp add: min_def)
    qed
    show "\<forall>df. snd (try_read env p) = Inr df \<longrightarrow> 0 < shape1 df"
    proof (cases ?F strategy_kwargs rule: takeWhile_cases)
      case all
      from part4 [OF all(1)] show ?thesis by blast
    next
      case (stop i)
      then have "i < 6" "yields env p (strategy_kwargs ! i)" by (simp_all add: strategy_kwargs_length)
      from part3 [OF this(1) stop(2) this(2)] show ?thesis by blast
    qed
  qed
  from strategy_kwargs_eq part2 part3 part4 part5 show ?thesis by blast
qed

theorem strategies_in_order_witness:
  "(snd (try_read (example_env [(''/d/x.csv'', 40)] [] []
          (parses_only_with [Engine ''python'', SepNone] mixed_table)) ''/d/x.csv'') = Inr mixed_table
   \<and> path_reads (fst (try_read (example_env [(''/d/x.csv'', 40)] [] []
          (parses_only_with [Engine ''python'', SepNone] mixed_table)) ''/d/x.csv''))
       = [(''/d/x.csv'', [Encoding ''utf-8'']), (''/d/x.csv'', [Encoding ''utf-8-sig'']),
          (''/d/x.csv'', [Encoding ''latin1'']), (''/d/x.csv'', [Engine ''python'', SepNone])]
   \<and> memory_reads (fst (try_read (example_env [(''/d/x.csv'', 40)] [] []
          (parses_only_with [Engine ''python'', SepNone] mixed_table)) ''/d/x.csv'')) = []
   \<and> PrintModalAttempt \<notin> set (fst (try_read (example_env [(''/d/x.csv'', 40)] [] []
          (parses_only_with [Engine ''python'', SepNone] mixed_table)) ''/d/x.csv''))
   \<and> path_reads (fst (try_read blank_env ''/d/blank.csv''))
       = map (Pair ''/d/blank.csv'') strategy_kwargs
   \<and> PrintModalAttempt \<in> set (fst (try_read blank_env ''/d/blank.csv'')))
   \<and> (0 < shape1 mixed_table)"
proof (rule conjI)
  show "snd (try_read (example_env [(''/d/x.csv'', 40)] [] []
          (parses_only_with [Engine ''python'', SepNone] mixed_table)) ''/d/x.csv'') = Inr mixed_table
   \<and> path_reads (fst (try_read (example_env [(''/d/x.csv'', 40)] [] []
          (parses_only_with [Engine ''python'', SepNone] mixed_table)) ''/d/x.csv''))
       = [(''/d/x.csv'', [Encoding ''utf-8'']), (''/d/x.csv'', [Encoding ''utf-8-sig'']),
          (''/d/x.csv'', [Encoding ''latin1'']), (''/d/x.csv'', [Engine ''python'', SepNone])]
   \<and> memory_reads (fst (try_read (example_env [(''/d/x.csv'', 40)] [] []
          (parses_only_with [Engine ''python'', SepNone] mixed_table)) ''/d/x.csv'')) = []
   \<and> PrintModalAttempt \<notin> set (fst (try_read (example_env [(''/d/x.csv'', 40)] [] []
          (parses_only_with [Engine ''python'', SepNone] mixed_table)) ''/d/x.csv''))
   \<and> path_reads (fst (try_read blank_env ''/d/blank.csv''))
       = map (Pair ''/d/blank.csv'') strategy_kwargs
   \<and> PrintModalAttempt \<in> set (fst (try_read blank_env ''/d/blank.csv''))"
    proof -
      let ?E = "example_env [(''/d/x.csv'', 40)] [] []
              (parses_only_with [Engine ''python'', SepNone] mixed_table)"
      have h: "3 < (6::nat) \<and> list_all (\<lambda>kw. \<not> yields ?E ''/d/x.csv'' kw) (take 3 strategy_kwargs)
          \<and> yields ?E ''/d/x.csv'' (strategy_kwargs ! 3)"
        by (simp add: strategy_kwargs_eq yields_def example_env_def parses_only_with_def mixed_table_def
            shape1_def)
      have r: "read_csv ?E (Path ''/d/x.csv'') (strategy_kwargs ! 3) = Inr mixed_table"
        by (simp add: strategy_kwargs_eq example_env_def parses_only_with_def)
      have t: "take (Suc 3) strategy_kwargs = [[Encoding ''utf-8''], [Encoding ''utf-8-sig''],
          [Encoding ''latin1''], [Engine ''python'', SepNone]]"
        by (simp add: strategy_kwargs_eq)
      have b: "list_all (\<lambda>kw. \<not> yields blank_env ''/d/blank.csv'' kw) strategy_kwargs"
        by (simp add: strategy_kwargs_eq yields_def blank_env_def example_env_def never_parses_def)
      from strategies_in_order [of ?E "''/d/x.csv''", THEN conjunct2, THEN conjunct2, THEN conjunct1,
          rule_format, of 3] h r t
      have 1: "snd (try_read ?E ''/d/x.csv'') = Inr mixed_table
         \<and> path_reads (fst (try_read ?E ''/d/x.csv''))
           = [(''/d/x.csv'', [Encoding ''utf-8'']), (''/d/x.csv'', [Encoding ''utf-8-sig'']),
              (''/d/x.csv'', [Encoding ''latin1'']), (''/d/x.csv'', [Engine ''python'', SepNone])]
         \<and> memory_reads (fst (try_read ?E ''/d/x.csv'')) = []
         \<and> PrintModalAttempt \<notin> set (fst (try_read ?E ''/d/x.csv''))"
        by simp
      from strategies_in_order [of blank_env "''/d/blank.csv''", THEN conjunct2, THEN conjunct2,
          THEN conjunct2, THEN conjunct1] b
      obtain log where "fst (try_read blank_env ''/d/blank.csv'')
          = map (ReadCsv (Path ''/d/blank.csv'')) strategy_kwargs @ PrintModalAttempt # log"
        "path_reads log = []" by blast
      then have 2: "path_reads (fst (try_read blank_env ''/d/blank.csv''))
           = map (Pair ''/d/blank.csv'') strategy_kwargs
         \<and> PrintModalAttempt \<in> set (fst (try_read blank_env ''/d/blank.csv''))"
        by simp
      from 1 2 show ?thesis by blast
    qed
  show "0 < shape1 mixed_table"
    proof -
      let ?E = "example_env [(''/d/x.csv'', 40)] [] []
              (parses_only_with [Engine ''python'', SepNone] mixed_table)"
      have h: "3 < (6::nat) \<and> list_all (\<lambda>kw. \<not> yields ?E ''/d/x.csv'' kw) (take 3 strategy_kwargs)
          \<and> yields ?E ''/d/x.csv'' (strategy_kwargs ! 3)"
        by (simp add: strategy_kwargs_eq yields_def example_env_def parses_only_with_def mixed_table_def
            shape1_def)
      have r: "read_csv ?E (Path ''/d/x.csv'') (strategy_kwargs ! 3) = Inr mixed_table"
        by (simp add: strategy_kwargs_eq example_env_def parses_only_with_def)
      from strategies_in_order [of ?E "''/d/x.csv''", THEN conjunct2, THEN conjunct2, THEN conjunct1,
          rule_format, of 3] h r
      have "snd (try_read ?E ''/d/x.csv'') = Inr mixed_table" by simp
      with strategies_in_order [of ?E "''/d/x.csv''", THEN conjunct2, THEN conjunct2, THEN conjunct2,
          THEN conjunct2]
      show ?thesis by blast
    qed
qed

lemma short_file_unbound:
  assumes "list_all (\<lambda>kw. \<not> yields env p kw) strategy_kwargs"
    and "open_text env p = Inr lines" and "length lines < 2000"
  shows "try_read env p
    = (map (ReadCsv (Path p)) strategy_kwargs @ [PrintModalAttempt],
       Inl (UnboundLocalError ''sample_lines''))"
  using assms(2,3)
  by (simp add: try_read_six_fail [OF assms(1)] last_resort_def read_sample_def result_of_def)

text \<open>
  C3 fails on the code. On a file of two blank lines that no read parses, all seven
  strategies fail, and what escapes \<open>_try_read\<close> (and so \<open>load_data\<close>) is an
  UnboundLocalError for \<open>sample_lines\<close>, not the RuntimeError that carries the last
  exception: the handler of StopIteration assigns nothing, although its comment says the
  lines read so far are used.
\<close>

theorem short_file_escapes_untagged:
  "try_read blank_env ''/d/blank.csv''
     = (map (ReadCsv (Path ''/d/blank.csv'')) strategy_kwargs @ [PrintModalAttempt],
        Inl (UnboundLocalError ''sample_lines''))
   \<and> exn_class (UnboundLocalError ''sample_lines'') \<noteq> ''RuntimeError''
   \<and> file_size blank_env ''/d/blank.csv'' = Some 2
   \<and> snd (load_data blank_env (Some ''/d/blank.csv'')) = Inl (UnboundLocalError ''sample_lines'')"
proof -
  have b: "list_all (\<lambda>kw. \<not> yields blank_env ''/d/blank.csv'' kw) strategy_kwargs"
    by (simp add: strategy_kwargs_eq yields_def blank_env_def example_env_def never_parses_def)
  have o: "open_text blank_env ''/d/blank.csv'' = Inr [[CHR 0x0A], [CHR 0x0A]]"
    by (simp add: blank_env_def example_env_def)
  have t: "try_read blank_env ''/d/blank.csv''
     = (map (ReadCsv (Path ''/d/blank.csv'')) strategy_kwargs @ [PrintModalAttempt],
        Inl (UnboundLocalError ''sample_lines''))"
    using short_file_unbound [OF b o] by simp
  have s: "file_size blank_env ''/d/blank.csv'' = Some 2"
    by (simp add: blank_env_def example_env_def)
  from t s show ?thesis
    by (simp add: load_data_def os_path_exists_def os_path_getsize_def)
qed

section \<open>Properties of the modal-column-count reconstruction\<close>

lemma split_not_Nil [simp]: "split sep s \<noteq> []"
  by (induction s) auto

lemma length_split: "length (split sep s) = Suc (length (filter (\<lambda>c. c = sep) s))"
  by (induction s) auto

lemma map_fst_setdefault:
  "map fst (setdefault h k v) = (if k \<in> set (map fst h) then map fst h else map fst h @ [k])"
  by (induction h) auto

lemma map_of_setdefault:
  "map_of (setdefault h k v) = (case map_of h k of None \<Rightarrow> (map_of h)(k \<mapsto> v) | Some w \<Rightarrow> map_of h)"
proof (induction h)
  case Nil
  show ?case by simp
next
  case (Cons kv h)
  show ?case
  proof (cases "fst kv = k")
    case True
    then show ?thesis by (cases kv) auto
  next
    case False
    with Cons show ?thesis by (cases kv) (auto split: option.splits)
  qed
qed

lemma map_fst_increment: "map fst (increment h k) = map fst h"
  by (induction h) auto

lemma map_of_increment:
  "map_of (increment h k) = (case map_of h k of None \<Rightarrow> map_of h | Some n \<Rightarrow> (map_of h)(k \<mapsto> n + 1))"
proof (induction h)
  case Nil
  show ?case by simp
next
  case (Cons kv h)
  show ?case
  proof (cases "fst kv = k")
    case True
    then show ?thesis by (cases kv) auto
  next
    case False
    with Cons show ?thesis by (cases kv) (auto split: option.splits)
  qed
qed

lemma count_lines_snoc:
  "count_lines (ls @ [l]) sep =
     increment (setdefault (count_lines ls sep) (field_count sep l) 0) (field_count sep l)"
  by (simp add: count_lines_def field_count_def)

lemma frequency_snoc:
  "frequency sep c (ls @ [l]) = frequency sep c ls + (if field_count sep l = c then 1 else 0)"
  by (simp add: frequency_def)

lemma count_lines_histogram:
  "distinct (map fst (count_lines ls sep))
   \<and> (\<forall>c. map_of (count_lines ls sep) c
         = (if frequency sep c ls = 0 then None else Some (frequency sep c ls)))"
proof (induction ls rule: rev_induct)
  case Nil
  show ?case by (simp add: count_lines_def frequency_def)
next
  case (snoc l ls)
  let ?h = "count_lines ls sep" and ?k = "field_count sep l"
  from snoc have d: "distinct (map fst ?h)"
    and m: "\<And>c. map_of ?h c = (if frequency sep c ls = 0 then None else Some (frequency sep c ls))"
    by blast+
  have "distinct (map fst (count_lines (ls @ [l]) sep))"
    using d by (simp add: count_lines_snoc map_fst_increment map_fst_setdefault)
  moreover have "map_of (count_lines (ls @ [l]) sep) c
         = (if frequency sep c (ls @ [l]) = 0 then None else Some (frequency sep c (ls @ [l])))" for c
    by (simp add: count_lines_snoc map_of_increment map_of_setdefault m frequency_snoc
        split: option.splits)
  ultimately show ?case by blast
qed

lemma max_by_value_max:
  "max_by_value best kvs \<in> set (best # kvs)
   \<and> (\<forall>kv\<in>set (best # kvs). snd kv \<le> snd (max_by_value best kvs))"
proof (induction kvs arbitrary: best)
  case Nil
  show ?case by simp
next
  case (Cons kv kvs)
  from Cons [of "if snd kv > snd best then kv else best"] show ?case
    by (auto split: if_splits)
qed

lemma modal_count_spec:
  assumes "ls \<noteq> []"
  shows "\<exists>c n. modal_count ls sep = Inr (c, n) \<and> n = frequency sep c ls \<and> 0 < n
           \<and> (\<forall>c'. frequency sep c' ls \<le> n)"
proof -
  let ?h = "count_lines ls sep"
  from count_lines_histogram [of ls sep] have d: "distinct (map fst ?h)"
    and m: "\<And>c. map_of ?h c = (if frequency sep c ls = 0 then None else Some (frequency sep c ls))"
    by blast+
  from assms obtain l where l: "l \<in> set ls" by (cases ls) auto
  then have "filter (\<lambda>x. field_count sep x = field_count sep l) ls \<noteq> []"
    by (auto simp: filter_empty_conv)
  then have "frequency sep (field_count sep l) ls \<noteq> 0" by (simp add: frequency_def)
  with m [of "field_count sep l"] have "map_of ?h (field_count sep l) \<noteq> None" by simp
  then have "?h \<noteq> []" by auto
  then obtain kv kvs where h: "?h = kv # kvs" by (cases ?h) auto
  let ?r = "max_by_value kv kvs"
  from max_by_value_max [of kv kvs] h have r: "?r \<in> set ?h" "\<forall>x\<in>set ?h. snd x \<le> snd ?r"
    by simp_all
  have mc: "modal_count ls sep = Inr (fst ?r, snd ?r)" by (simp add: modal_count_def h)
  from r(1) have "(fst ?r, snd ?r) \<in> set ?h" by simp
  with d have "map_of ?h (fst ?r) = Some (snd ?r)" by (simp only: map_of_eq_Some_iff)
  with m [of "fst ?r"] have n: "snd ?r = frequency sep (fst ?r) ls" "0 < snd ?r"
    by (auto split: if_splits)
  have "frequency sep c' ls \<le> snd ?r" for c'
  proof (cases "frequency sep c' ls = 0")
    case False
    with m [of c'] have "map_of ?h c' = Some (frequency sep c' ls)" by simp
    then have "(c', frequency sep c' ls) \<in> set ?h" by (rule map_of_SomeD)
    with r(2) show ?thesis by force
  qed simp
  with mc n show ?thesis by blast
qed

lemma stream_rows_filter:
  "stream_rows sep m ls (acc, k, t)
     = (acc @ filter (\<lambda>l. field_count sep l = m) ls,
        k + length (filter (\<lambda>l. field_count sep l = m) ls), t + length ls)"
  by (induction ls arbitrary: acc k t) (simp_all add: field_count_def)

lemma field_count_no_sep: "sep \<notin> set l \<Longrightarrow> field_count sep l = 1"
  by (auto simp: field_count_def length_split filter_empty_conv)

lemma frequency_all_same:
  assumes "\<forall>l\<in>set ls. field_count sep l = k"
  shows "frequency sep c ls = (if c = k then length ls else 0)"
  using assms by (induction ls) (auto simp: frequency_def)

lemma modal_clean_eval:
  assumes c: "modal_count sample (CHR '','') = Inr (cc, cf)"
    and s: "modal_count sample (CHR '';'') = Inr (sc, sf)"
    and o: "open_text env p = Inr lines"
    and sep: "sep = (if sf \<le> cf then CHR '','' else CHR '';'')"
    and cols: "cols = (if sf \<le> cf then cc else sc)"
    and kept: "kept_rows = filter (\<lambda>l. field_count sep l = cols) lines"
    and ne: "kept_rows \<noteq> []"
  shows "modal_clean env p sample l =
     (case read_csv env (StringIO (concat kept_rows)) [Sep sep] of
        Inl e \<Rightarrow> ([ReadCsv (StringIO (concat kept_rows)) [Sep sep]], Continue (Some e))
      | Inr df \<Rightarrow>
          if shape1 df = 0 then
            ([ReadCsv (StringIO (concat kept_rows)) [Sep sep],
              PrintModalKept (length kept_rows) (length lines) sep cols],
             Continue (Some (EmptyDataError ''Modal-cleaner produced 0 columns.'')))
          else
            ([ReadCsv (StringIO (concat kept_rows)) [Sep sep],
              PrintModalKept (length kept_rows) (length lines) sep cols],
             Returned df))"
proof -
  have cs: "choose_sep (cc, cf) (sc, sf) = sep" by (simp add: choose_sep_def sep)
  have mc: "(if sep = CHR '','' then fst (cc, cf) else fst (sc, sf)) = cols"
    by (simp add: sep cols)
  have st: "stream_rows sep cols lines ([], 0, 0) = (kept_rows, length kept_rows, length lines)"
    by (simp add: stream_rows_filter kept)
  from ne have l0: "length kept_rows \<noteq> 0" by simp
  show ?thesis
    unfolding modal_clean_def c s o sum.case Let_def cs mc st prod.case
    using l0 by simp
qed

lemma try_read_modal:
  assumes six: "list_all (\<lambda>kw. \<not> yields env p kw) strategy_kwargs"
    and o: "open_text env p = Inr lines" and len: "2000 \<le> length lines"
    and c: "modal_count (take 2000 lines) (CHR '','') = Inr (cc, cf)"
    and s: "modal_count (take 2000 lines) (CHR '';'') = Inr (sc, sf)"
    and sep: "sep = (if sf \<le> cf then CHR '','' else CHR '';'')"
    and cols: "cols = (if sf \<le> cf then cc else sc)"
    and kept: "kept_rows = filter (\<lambda>l. field_count sep l = cols) lines"
    and ne: "kept_rows \<noteq> []"
  shows "try_read env p =
     (case read_csv env (StringIO (concat kept_rows)) [Sep sep] of
        Inl e \<Rightarrow>
          (map (ReadCsv (Path p)) strategy_kwargs
             @ [PrintModalAttempt, ReadCsv (StringIO (concat kept_rows)) [Sep sep]],
           Inl (ParseFailed p (Some e)))
      | Inr df \<Rightarrow>
          (map (ReadCsv (Path p)) strategy_kwargs
             @ [PrintModalAttempt, ReadCsv (StringIO (concat kept_rows)) [Sep sep],
                PrintModalKept (length kept_rows) (length lines) sep cols],
           if shape1 df = 0
           then Inl (ParseFailed p (Some (EmptyDataError ''Modal-cleaner produced 0 columns.'')))
           else Inr df))"
proof -
  from len have sne: "take 2000 lines \<noteq> []" by auto
  from o len have rs: "read_sample env p = Bound (Some (take 2000 lines))"
    by (simp add: read_sample_def)
  have lr: "last_resort env p l =
      and_then
        (and_then ([PrintModalAttempt], Continue l) (modal_clean env p (take 2000 lines)))
        (\<lambda>last_exc'. ([], Raised (ParseFailed p last_exc')))" for l
    using sne by (simp add: last_resort_def rs)
  note mc = modal_clean_eval [OF c s o sep cols kept ne]
  show ?thesis
  proof (cases "read_csv env (StringIO (concat kept_rows)) [Sep sep]")
    case (Inl e)
    then show ?thesis
      by (simp add: try_read_six_fail [OF six] lr mc result_of_def)
  next
    case (Inr df)
    then show ?thesis
      by (simp add: try_read_six_fail [OF six] lr mc result_of_def)
  qed
qed

lemma frequency_less:
  assumes "l \<in> set ls" "field_count sep l \<noteq> c"
  shows "frequency sep c ls < length ls"
  using assms unfolding frequency_def by (intro length_filter_less [of l]) auto

lemma modal_count_all_same:
  assumes "ls \<noteq> []" "\<forall>l\<in>set ls. field_count sep l = k"
  shows "modal_count ls sep = Inr (k, length ls)"
proof -
  from modal_count_spec [OF assms(1), of sep] obtain c n where
    m: "modal_count ls sep = Inr (c, n)" "n = frequency sep c ls" "0 < n"
    by blast
  from frequency_all_same [OF assms(2), of c] m(2,3) have "c = k" "n = length ls"
    by (auto split: if_splits)
  with m(1) show ?thesis by simp
qed

text \<open>
  A file of at least 2000 lines without any semicolon, whose sampled lines do not all
  have the same number of comma-separated fields, is never cleaned: the semicolon wins
  with modal count 1, and every line is kept.
\<close>

lemma semicolon_free_keeps_all:
  assumes six: "list_all (\<lambda>kw. \<not> yields env p kw) strategy_kwargs"
    and o: "open_text env p = Inr lines" and len: "2000 \<le> length lines"
    and nosemi: "\<forall>l\<in>set lines. CHR '';'' \<notin> set l"
    and ragged: "l1 \<in> set (take 2000 lines)" "l2 \<in> set (take 2000 lines)"
      "field_count (CHR '','') l1 \<noteq> field_count (CHR '','') l2"
  shows "try_read env p =
     (case read_csv env (StringIO (concat lines)) [Sep (CHR '';'')] of
        Inl e \<Rightarrow>
          (map (ReadCsv (Path p)) strategy_kwargs
             @ [PrintModalAttempt, ReadCsv (StringIO (concat lines)) [Sep (CHR '';'')]],
           Inl (ParseFailed p (Some e)))
      | Inr df \<Rightarrow>
          (map (ReadCsv (Path p)) strategy_kwargs
             @ [PrintModalAttempt, ReadCsv (StringIO (concat lines)) [Sep (CHR '';'')],
                PrintModalKept (length lines) (length lines) (CHR '';'') 1],
           if shape1 df = 0
           then Inl (ParseFailed p (Some (EmptyDataError ''Modal-cleaner produced 0 columns.'')))
           else Inr df))"
proof -
  let ?s = "take 2000 lines"
  from len have sne: "?s \<noteq> []" and slen: "length ?s = 2000" by auto
  from nosemi have one: "\<forall>l\<in>set lines. field_count (CHR '';'') l = 1"
    by (simp add: field_count_no_sep)
  then have "\<forall>l\<in>set ?s. field_count (CHR '';'') l = 1" by (auto dest: in_set_takeD)
  from modal_count_all_same [OF sne this] slen
  have s: "modal_count ?s (CHR '';'') = Inr (1, 2000)" by simp
  from modal_count_spec [OF sne, of "CHR '',''"] obtain cc cf where
    c: "modal_count ?s (CHR '','') = Inr (cc, cf)" "cf = frequency (CHR '','') cc ?s"
    by blast
  from ragged(3) have "field_count (CHR '','') l1 \<noteq> cc \<or> field_count (CHR '','') l2 \<noteq> cc" by auto
  with ragged(1,2) frequency_less [of _ ?s "CHR '',''" cc] have "frequency (CHR '','') cc ?s < length ?s"
    by blast
  with c(2) slen have cf: "cf < 2000" by simp
  from one have k: "lines = filter (\<lambda>l. field_count (CHR '';'') l = 1) lines" by simp
  from len have ne: "lines \<noteq> []" by auto
  from cf have sep: "CHR '';'' = (if (2000::nat) \<le> cf then CHR '','' else CHR '';'')"
    and cols: "(1::nat) = (if (2000::nat) \<le> cf then cc else 1)"
    by simp_all
  from try_read_modal [OF six o len c(1) s sep cols k ne] show ?thesis .
qed

lemma fc_ragged:
  "field_count (CHR '','') ''\<newline>'' = 1"
  "field_count (CHR '','') ''1,2,3,4\<newline>'' = 4"
  "field_count (CHR '','') ''1,2,3,4,5\<newline>'' = 5"
  by (simp_all add: field_count_def)

text \<open>
  C1 fails on the code. In the file of 2001 lines (a blank line, 400 four-field and 1600
  five-field lines, no semicolon) none of the six reads parses, and the last resort does
  not keep the 1600 five-field lines: every line has one field under the semicolon, so
  the semicolon is chosen with modal count 1, all 2001 lines are kept and
  \<open>kept = total = 2001\<close> is printed, against the comment that only well-formed rows are
  kept. And on the file of two blank lines, shorter than the sample, the last resort
  does not use all lines: it parses nothing from memory and an UnboundLocalError escapes.
\<close>

theorem modal_cleaner_keeps_ragged_rows:
  "length ragged_lines = 2001
   \<and> frequency (CHR '','') 5 ragged_lines = 1600
   \<and> frequency (CHR '','') 4 ragged_lines = 400
   \<and> list_all (\<lambda>kw. \<not> yields ragged_env ''/d/ragged.csv'' kw) strategy_kwargs
   \<and> try_read ragged_env ''/d/ragged.csv''
      = (map (ReadCsv (Path ''/d/ragged.csv'')) strategy_kwargs
           @ [PrintModalAttempt, ReadCsv (StringIO (concat ragged_lines)) [Sep (CHR '';'')],
              PrintModalKept 2001 2001 (CHR '';'') 1],
         Inr one_col_table)
   \<and> memory_reads (fst (try_read blank_env ''/d/blank.csv'')) = []
   \<and> snd (try_read blank_env ''/d/blank.csv'') = Inl (UnboundLocalError ''sample_lines'')"
proof -
  have len: "length ragged_lines = 2001" by (simp add: ragged_lines_def)
  have f: "frequency (CHR '','') 5 ragged_lines = 1600" "frequency (CHR '','') 4 ragged_lines = 400"
    by (simp_all add: ragged_lines_def frequency_def filter_replicate fc_ragged)
  have six: "list_all (\<lambda>kw. \<not> yields ragged_env ''/d/ragged.csv'' kw) strategy_kwargs"
    by (simp add: strategy_kwargs_eq yields_def ragged_env_def example_env_def ragged_reads_def)
  have o: "open_text ragged_env ''/d/ragged.csv'' = Inr ragged_lines"
    by (simp add: ragged_env_def example_env_def)
  have nosemi: "\<forall>l\<in>set ragged_lines. CHR '';'' \<notin> set l"
    by (auto simp: ragged_lines_def)
  have t: "take 2000 ragged_lines
      = ''\<newline>'' # replicate 400 ''1,2,3,4\<newline>'' @ replicate 1599 ''1,2,3,4,5\<newline>''"
    by (simp add: ragged_lines_def)
  have l1: "''\<newline>'' \<in> set (take 2000 ragged_lines)"
    and l2: "''1,2,3,4\<newline>'' \<in> set (take 2000 ragged_lines)"
    unfolding t by simp_all
  have d: "field_count (CHR '','') ''\<newline>'' \<noteq> field_count (CHR '','') ''1,2,3,4\<newline>''"
    by (simp add: fc_ragged)
  have r: "read_csv ragged_env (StringIO (concat ragged_lines)) [Sep (CHR '';'')] = Inr one_col_table"
    by (simp add: ragged_env_def example_env_def ragged_reads_def)
  have "try_read ragged_env ''/d/ragged.csv''
      = (map (ReadCsv (Path ''/d/ragged.csv'')) strategy_kwargs
           @ [PrintModalAttempt, ReadCsv (StringIO (concat ragged_lines)) [Sep (CHR '';'')],
              PrintModalKept 2001 2001 (CHR '';'') 1],
         Inr one_col_table)"
    using semicolon_free_keeps_all [OF six o _ nosemi l1 l2 d] len r
    by (simp add: one_col_table_def shape1_def)
  moreover have "memory_reads (fst (try_read blank_env ''/d/blank.csv'')) = []
      \<and> snd (try_read blank_env ''/d/blank.csv'') = Inl (UnboundLocalError ''sample_lines'')"
  proof -
    have b: "list_all (\<lambda>kw. \<not> yields blank_env ''/d/blank.csv'' kw) strategy_kwargs"
      by (simp add: strategy_kwargs_eq yields_def blank_env_def example_env_def never_parses_def)
    have ob: "open_text blank_env ''/d/blank.csv'' = Inr [[CHR 0x0A], [CHR 0x0A]]"
      by (simp add: blank_env_def example_env_def)
    from short_file_unbound [OF b ob] show ?thesis by simp
  qed
  ultimately show ?thesis using len f six by blast
qed

end
